theory Spec2Isabelle
  imports Complex_Main "HOL-Library.Sublist" "HOL-Library.Log_Nat"
begin

section \<open>The data-cleansing pipeline of main.py\<close>

text \<open>
  The program is a chain of five stages over a pandas DataFrame: \<open>load_data\<close>,
  \<open>standardize_column_names\<close>, \<open>cleanse_data\<close>, \<open>validate_data\<close>, \<open>save_data\<close>, run in that
  order by \<open>process_pipeline\<close>. Every stage is a \<open>try\<close> block around one or a few pandas
  calls, with a log record on each path. The embedding has three layers:
  \<^item> the tables: a DataFrame as the list of its labelled columns, a column as a typed
    series (the dtypes \<open>read_csv\<close> infers), and the pandas operations the source calls
    (\<open>median\<close>, \<open>fillna\<close>, \<open>drop_duplicates\<close>) with the behaviour of pandas 2.x;
  \<^item> the world: the files the run reads, the files it writes, the log;
  \<^item> the stages: functions from a world to a result or an exception, and a new world.
\<close>

subsection \<open>Values, series and tables\<close>

text \<open>
  A float64 value: a finite double by the rational it denotes, the two infinities, or
  NaN, the missing marker of pandas. Arithmetic rounds to the nearest double
  (\<open>round_float64\<close> below). The sign of zero is not kept: pandas compares and hashes
  \<open>0.0\<close> and \<open>-0.0\<close> as one value.
\<close>

datatype float64 = Fin rat | PInf | NInf | NaN

text \<open>A cell as a row sees it: the Python object held at one row of one column.\<close>

datatype cell = CInt int | CFloat float64 | CBool bool | CStr string

text \<open>
  A column with its dtype: integer, float64, bool, or object (any Python objects; from
  \<open>read_csv\<close> these are strings, booleans and NaN for a missing field).
\<close>

datatype series = IntS "int list" | FloatS "float64 list" | BoolS "bool list" | ObjS "cell list"

text \<open>
  A Python \<open>str\<close> whose characters matter is the list of its code points; \<open>ustr\<close>
  writes one from an ASCII literal. Column labels are such strings. The strings in
  cells, paths and messages are only compared and concatenated; they stay \<open>string\<close>.
\<close>

type_synonym str = "nat list"

definition ustr :: "string \<Rightarrow> str" where
  "ustr s = map of_char s"

type_synonym dataframe = "(str \<times> series) list"

fun cells :: "series \<Rightarrow> cell list" where
  "cells (IntS xs) = map CInt xs"
| "cells (FloatS xs) = map CFloat xs"
| "cells (BoolS bs) = map CBool bs"
| "cells (ObjS cs) = cs"

definition isna :: "cell \<Rightarrow> bool" where
  "isna c = (c = CFloat NaN)"

definition columns :: "dataframe \<Rightarrow> str list" where
  "columns df = map fst df"

text \<open>
  The rows of a table, each the list of its cells in column order. pandas tables are
  rectangular; on a ragged list of columns the rows stop at the shortest column.
\<close>

fun rows :: "dataframe \<Rightarrow> cell list list" where
  "rows [] = []"
| "rows [(n, s)] = map (\<lambda>c. [c]) (cells s)"
| "rows ((n, s) # c # cs) = map2 (#) (cells s) (rows (c # cs))"

definition rectangular :: "dataframe \<Rightarrow> bool" where
  "rectangular df = (\<forall>c \<in> set df. length (cells (snd c)) = length (cells (snd (hd df))))"

subsection \<open>Exceptions, the log, the world\<close>

datatype exn_type =
  FileNotFoundError | ParserError | ValueError | AttributeError | OtherError

text \<open>An exception: its class and \<open>str(e)\<close>.\<close>

datatype exn = Exn (etype: exn_type) (message: string)

datatype level = INFO | ERROR

type_synonym log_record = "level \<times> string"

text \<open>What \<open>pd.read_csv\<close> finds at a path.\<close>

datatype source =
  NoSuchFile
  | Malformed string
  | Unreadable exn
  | Csv dataframe

text \<open>
  The stages whose \<open>try\<close> block has no \<open>raise\<close> of its own: their \<open>except\<close> branch is
  taken when the pandas call inside raises, which the world decides.
\<close>

datatype stage = Standardize | Cleanse | Save

text \<open>
  The Unicode character database of the Python runtime, as far as \<open>str.lower\<close> reads it
  outside ASCII: the full lowercase mapping of a code point (several code points for
  some characters), and the two properties that decide the form of a lowercased
  capital sigma. The tables are not part of the repository; the world supplies them.
\<close>

record unicode_db =
  to_lower :: "nat \<Rightarrow> nat list"
  cased :: "nat \<Rightarrow> bool"
  case_ignorable :: "nat \<Rightarrow> bool"

record world =
  source :: "string \<Rightarrow> source"
  fails :: "stage \<Rightarrow> exn option"
  unicode :: unicode_db
  written :: "string \<rightharpoonup> dataframe"
  log :: "log_record list"

definition logging_info :: "string \<Rightarrow> world \<Rightarrow> world" where
  "logging_info m w = w\<lparr>log := log w @ [(INFO, m)]\<rparr>"

definition logging_error :: "string \<Rightarrow> world \<Rightarrow> world" where
  "logging_error m w = w\<lparr>log := log w @ [(ERROR, m)]\<rparr>"

subsection \<open>load_data\<close>

definition quoted :: "string \<Rightarrow> string" where
  "quoted s = [CHR 0x27] @ s @ [CHR 0x27]"

definition read_csv :: "world \<Rightarrow> string \<Rightarrow> exn + dataframe" where
  "read_csv w file_path =
     (case source w file_path of
        NoSuchFile \<Rightarrow>
          Inl (Exn FileNotFoundError (''[Errno 2] No such file or directory: '' @ quoted file_path))
      | Malformed m \<Rightarrow> Inl (Exn ParserError m)
      | Unreadable e \<Rightarrow> Inl e
      | Csv df \<Rightarrow> Inr df)"

text \<open>The three \<open>except\<close> clauses are tried in the source's order; each logs and re-raises.\<close>

definition load_data :: "world \<Rightarrow> string \<Rightarrow> (exn + dataframe) \<times> world" where
  "load_data w file_path =
     (case read_csv w file_path of
        Inr data \<Rightarrow> (Inr data, logging_info (''Data loaded successfully from '' @ file_path) w)
      | Inl e \<Rightarrow>
          if etype e = FileNotFoundError
            then (Inl e, logging_error (''File not found: '' @ file_path) w)
          else if etype e = ParserError
            then (Inl e, logging_error (''Error parsing the file: '' @ file_path) w)
          else (Inl e, logging_error
                  (''An unknown error occurred while loading data: '' @ message e) w))"

subsection \<open>standardize_column_names\<close>

text \<open>
  \<open>col.strip().lower().replace(' ', '_')\<close> on code points.
  \<open>strip\<close> removes from both ends the characters for which \<open>str.isspace\<close> holds: the
  ASCII ones (9 to 13, 28 to 32) and the Unicode white space beyond them.
\<close>

definition isspace :: "nat \<Rightarrow> bool" where
  "isspace c =
     ((9 \<le> c \<and> c \<le> 13) \<or> (28 \<le> c \<and> c \<le> 32) \<or> c = 0x85 \<or> c = 0xA0 \<or> c = 0x1680 \<or>
      (0x2000 \<le> c \<and> c \<le> 0x200A) \<or> c = 0x2028 \<or> c = 0x2029 \<or> c = 0x202F \<or>
      c = 0x205F \<or> c = 0x3000)"

definition strip :: "str \<Rightarrow> str" where
  "strip s = rev (dropWhile isspace (rev (dropWhile isspace s)))"

text \<open>
  \<open>lower\<close> maps every character to its full lowercase mapping: A to Z in ASCII, the
  table of the runtime elsewhere. A capital sigma (U+03A3) becomes the final sigma
  (U+03C2) when the nearest character before it that is not case-ignorable is cased
  and the nearest one after it is not, and the small sigma (U+03C3) otherwise.
\<close>

definition ascii_lower :: "nat \<Rightarrow> nat" where
  "ascii_lower c = (if 65 \<le> c \<and> c \<le> 90 then c + 32 else c)"

definition lower_full :: "unicode_db \<Rightarrow> nat \<Rightarrow> nat list" where
  "lower_full db c = (if c < 128 then [ascii_lower c] else to_lower db c)"

definition next_cased :: "unicode_db \<Rightarrow> str \<Rightarrow> bool" where
  "next_cased db s =
     (case dropWhile (case_ignorable db) s of [] \<Rightarrow> False | c # cs \<Rightarrow> cased db c)"

definition final_sigma :: "unicode_db \<Rightarrow> str \<Rightarrow> str \<Rightarrow> bool" where
  "final_sigma db before after = (next_cased db before \<and> \<not> next_cased db after)"

text \<open>\<open>before\<close> holds the characters already passed, the nearest first.\<close>

fun lower_from :: "unicode_db \<Rightarrow> str \<Rightarrow> str \<Rightarrow> str" where
  "lower_from db before [] = []"
| "lower_from db before (c # cs) =
     (if c = 0x3A3 then [if final_sigma db before cs then 0x3C2 else 0x3C3]
      else lower_full db c) @ lower_from db (c # before) cs"

definition lower :: "unicode_db \<Rightarrow> str \<Rightarrow> str" where
  "lower db s = lower_from db [] s"

definition replace_space :: "str \<Rightarrow> str" where
  "replace_space s = map (\<lambda>c. if c = 0x20 then 0x5F else c) s"

definition standardize_name :: "unicode_db \<Rightarrow> str \<Rightarrow> str" where
  "standardize_name db col = replace_space (lower db (strip col))"

definition standardize_column_names :: "world \<Rightarrow> dataframe \<Rightarrow> (exn + dataframe) \<times> world" where
  "standardize_column_names w data =
     (case fails w Standardize of
        None \<Rightarrow> (Inr (map (\<lambda>(col, s). (standardize_name (unicode w) col, s)) data),
                 logging_info ''Column names standardized.'' w)
      | Some e \<Rightarrow> (Inl e, logging_error
                   (''An error occurred while standardizing column names: '' @ message e) w))"

subsection \<open>cleanse_data\<close>

text \<open>
  \<open>data.median(numeric_only=True)\<close>: one entry per numeric column (integer, float64 and
  bool dtypes), in column order, labelled with the column's name. The values are taken
  as float64, NaN is skipped, and the median is the middle of the sorted rest, or the
  mean of the two middle values; with nothing left it is NaN.
\<close>

fun is_numeric :: "series \<Rightarrow> bool" where
  "is_numeric (ObjS cs) = False"
| "is_numeric s = True"

text \<open>
  Rounding of a rational to the nearest double, ties to the even significand: 53 bits
  of significand \<open>m\<close>, the least exponent \<open>-1074\<close>, and the infinity when the rounded
  value \<open>m * 2 ^ e\<close> reaches \<open>2 ^ 1024\<close>, which is when \<open>e\<close> exceeds 971 or \<open>m\<close> reaches
  \<open>2 ^ 53\<close> at \<open>e = 971\<close>.
\<close>

definition pow2 :: "int \<Rightarrow> rat" where
  "pow2 e = (if 0 \<le> e then 2 ^ nat e else 1 / 2 ^ nat (- e))"

definition ilog2 :: "rat \<Rightarrow> int" where
  "ilog2 x =
     (let (p, q) = quotient_of x; d = bitlen p - bitlen q
      in if pow2 d \<le> x then d else d - 1)"

definition round_half_even :: "rat \<Rightarrow> int" where
  "round_half_even x =
     (let f = \<lfloor>x\<rfloor>; r = x - of_int f
      in if r < 1 / 2 then f else if 1 / 2 < r then f + 1 else if even f then f else f + 1)"

definition round_float64 :: "rat \<Rightarrow> float64" where
  "round_float64 x =
     (if x = 0 then Fin 0
      else let a = \<bar>x\<bar>;
               e = max (ilog2 a - 52) (- 1074);
               m = round_half_even (a / pow2 e)
           in if 971 < e \<or> (e = 971 \<and> 2 ^ 53 \<le> m) then (if x < 0 then NInf else PInf)
              else Fin (if x < 0 then - (of_int m * pow2 e) else of_int m * pow2 e))"

text \<open>The values of a numeric column as float64: \<open>values.astype('f8')\<close>.\<close>

fun as_float64 :: "series \<Rightarrow> float64 list" where
  "as_float64 (IntS xs) = map (\<lambda>i. round_float64 (of_int i)) xs"
| "as_float64 (FloatS xs) = xs"
| "as_float64 (BoolS bs) = map (\<lambda>b. Fin (if b then 1 else 0)) bs"
| "as_float64 (ObjS cs) = []"

fun float_le :: "float64 \<Rightarrow> float64 \<Rightarrow> bool" where
  "float_le NInf y = True"
| "float_le x PInf = True"
| "float_le (Fin a) (Fin b) = (a \<le> b)"
| "float_le x y = False"

fun insert_sorted :: "float64 \<Rightarrow> float64 list \<Rightarrow> float64 list" where
  "insert_sorted x [] = [x]"
| "insert_sorted x (y # ys) = (if float_le x y then x # y # ys else y # insert_sorted x ys)"

definition sort_floats :: "float64 list \<Rightarrow> float64 list" where
  "sort_floats xs = foldr insert_sorted xs []"

text \<open>
  The mean of the two middle values as numpy takes it, \<open>(a + b) / 2\<close> in float64: the
  sum is rounded, then the half of it; a sum beyond the largest double is an infinity,
  and opposite infinities add up to NaN.
\<close>

fun halve :: "float64 \<Rightarrow> float64" where
  "halve (Fin s) = round_float64 (s / 2)"
| "halve x = x"

fun mean2 :: "float64 \<Rightarrow> float64 \<Rightarrow> float64" where
  "mean2 (Fin a) (Fin b) = halve (round_float64 (a + b))"
| "mean2 NaN y = NaN"
| "mean2 x NaN = NaN"
| "mean2 PInf NInf = NaN"
| "mean2 NInf PInf = NaN"
| "mean2 PInf y = PInf"
| "mean2 x PInf = PInf"
| "mean2 NInf y = NInf"
| "mean2 x NInf = NInf"

definition nanmedian :: "float64 list \<Rightarrow> float64" where
  "nanmedian xs =
     (let ys = sort_floats (filter (\<lambda>x. x \<noteq> NaN) xs); n = length ys
      in if n = 0 then NaN
         else if odd n then ys ! (n div 2)
         else mean2 (ys ! (n div 2 - 1)) (ys ! (n div 2)))"

definition median :: "series \<Rightarrow> float64" where
  "median s = nanmedian (as_float64 s)"

definition median_numeric_only :: "dataframe \<Rightarrow> (str \<times> float64) list" where
  "median_numeric_only df =
     map (\<lambda>(col, s). (col, median s)) (filter (\<lambda>(col, s). is_numeric s) df)"

text \<open>
  \<open>fillna(v)\<close> on one column with a float \<open>v\<close>: integer and bool columns hold no NaN and
  stay; a float64 column stays float64; an object column gets the float as an object.
\<close>

fun fillna_float :: "float64 \<Rightarrow> series \<Rightarrow> series" where
  "fillna_float v (IntS xs) = IntS xs"
| "fillna_float v (BoolS bs) = BoolS bs"
| "fillna_float v (FloatS xs) = FloatS (map (\<lambda>x. if x = NaN then v else x) xs)"
| "fillna_float v (ObjS cs) = ObjS (map (\<lambda>c. if isna c then CFloat v else c) cs)"

text \<open>
  \<open>DataFrame.fillna(value)\<close> with a Series as value loops over the entries \<open>(k, v)\<close> of the
  Series and fills, with \<open>v\<close>, what \<open>result[k]\<close> selects: every column labelled \<open>k\<close>.
\<close>

definition fillna_label :: "str \<Rightarrow> float64 \<Rightarrow> dataframe \<Rightarrow> dataframe" where
  "fillna_label k v df =
     map (\<lambda>(col, s). if col = k then (col, fillna_float v s) else (col, s)) df"

definition fillna_series :: "(str \<times> float64) list \<Rightarrow> dataframe \<Rightarrow> dataframe" where
  "fillna_series med df = fold (\<lambda>(k, v). fillna_label k v) med df"

text \<open>
  \<open>fillna('')\<close>: every NaN becomes the string; a float64 column that held a NaN
  becomes an object column (pandas 2.x upcasts here).
\<close>

fun fillna_str :: "string \<Rightarrow> series \<Rightarrow> series" where
  "fillna_str v (IntS xs) = IntS xs"
| "fillna_str v (BoolS bs) = BoolS bs"
| "fillna_str v (FloatS xs) =
     (if NaN \<in> set xs then ObjS (map (\<lambda>x. if x = NaN then CStr v else CFloat x) xs)
      else FloatS xs)"
| "fillna_str v (ObjS cs) = ObjS (map (\<lambda>c. if isna c then CStr v else c) cs)"

definition fillna_all :: "string \<Rightarrow> dataframe \<Rightarrow> dataframe" where
  "fillna_all v df = map (\<lambda>(col, s). (col, fillna_str v s)) df"

text \<open>
  \<open>drop_duplicates()\<close>: a row is a duplicate when an earlier row has equal cells in
  every column, and the first of equal rows is kept. Cells are compared the way pandas
  hashes them: inside an object column by Python equality, under which \<open>True\<close>, \<open>1\<close> and
  \<open>1.0\<close> are one value (an \<open>int\<close> and a \<open>float\<close> are compared exactly), and NaN counts
  as equal to NaN.
\<close>

datatype key = KNum float64 | KStr string

fun cell_key :: "cell \<Rightarrow> key" where
  "cell_key (CInt i) = KNum (Fin (of_int i))"
| "cell_key (CFloat x) = KNum x"
| "cell_key (CBool b) = KNum (Fin (if b then 1 else 0))"
| "cell_key (CStr s) = KStr s"

definition row_key :: "cell list \<Rightarrow> key list" where
  "row_key r = map cell_key r"

fun duplicated_from :: "'a list \<Rightarrow> 'a list \<Rightarrow> bool list" where
  "duplicated_from seen [] = []"
| "duplicated_from seen (r # rs) = (r \<in> set seen) # duplicated_from (r # seen) rs"

definition duplicated :: "dataframe \<Rightarrow> bool list" where
  "duplicated df = duplicated_from [] (map row_key (rows df))"

text \<open>Selection by a boolean mask, as \<open>xs[mask]\<close>.\<close>

fun select :: "bool list \<Rightarrow> 'a list \<Rightarrow> 'a list" where
  "select (b # bs) (x # xs) = (if b then x # select bs xs else select bs xs)"
| "select bs xs = []"

fun select_series :: "bool list \<Rightarrow> series \<Rightarrow> series" where
  "select_series m (IntS xs) = IntS (select m xs)"
| "select_series m (FloatS xs) = FloatS (select m xs)"
| "select_series m (BoolS bs) = BoolS (select m bs)"
| "select_series m (ObjS cs) = ObjS (select m cs)"

definition drop_duplicates :: "dataframe \<Rightarrow> dataframe" where
  "drop_duplicates df =
     (let keep = map Not (duplicated df) in map (\<lambda>(col, s). (col, select_series keep s)) df)"

text \<open>The three statements of the \<open>try\<close> block, in order.\<close>

definition cleanse :: "dataframe \<Rightarrow> dataframe" where
  "cleanse data =
     drop_duplicates (fillna_all [] (fillna_series (median_numeric_only data) data))"

definition cleanse_data :: "world \<Rightarrow> dataframe \<Rightarrow> (exn + dataframe) \<times> world" where
  "cleanse_data w data =
     (case fails w Cleanse of
        None \<Rightarrow> (Inr (cleanse data), logging_info ''Data cleansing completed.'' w)
      | Some e \<Rightarrow> (Inl e, logging_error
                   (''An error occurred during data cleansing: '' @ message e) w))"

subsection \<open>validate_data\<close>

text \<open>
  \<open>data['age']\<close> is a Series when exactly one column is labelled \<open>age\<close>; with several it
  is a DataFrame, which has no \<open>dtype\<close>, and the attribute access raises.
  \<open>np.issubdtype(dtype, np.integer)\<close> holds for the integer dtype only.
\<close>

definition age_rules :: "dataframe \<Rightarrow> exn + unit" where
  "age_rules data =
     (case filter (\<lambda>(col, s). col = ustr ''age'') data of
        [] \<Rightarrow> Inr ()
      | [(col, s)] \<Rightarrow>
          (case s of
             IntS xs \<Rightarrow>
               if \<exists>x \<in> set xs. x < 0
                 then Inl (Exn ValueError ''Age column contains negative values'')
               else Inr ()
           | _ \<Rightarrow> Inl (Exn ValueError ''Age column must be integer type''))
      | _ \<Rightarrow> Inl (Exn AttributeError
                 (quoted ''DataFrame'' @ '' object has no attribute '' @ quoted ''dtype'')))"

definition validate_data :: "world \<Rightarrow> dataframe \<Rightarrow> (exn + unit) \<times> world" where
  "validate_data w data =
     (case age_rules data of
        Inr u \<Rightarrow> (Inr (), logging_info ''Data validation completed.'' w)
      | Inl e \<Rightarrow>
          if etype e = ValueError
            then (Inl e, logging_error (''Data validation error: '' @ message e) w)
          else (Inl e, logging_error
                  (''An unknown error occurred during data validation: '' @ message e) w))"

subsection \<open>save_data\<close>

text \<open>
  \<open>data.to_csv(output_path, index=False)\<close> records the table under the path. What a
  failed write leaves on disk is not modelled: it records nothing.
\<close>

definition save_data :: "world \<Rightarrow> dataframe \<Rightarrow> string \<Rightarrow> (exn + unit) \<times> world" where
  "save_data w data output_path =
     (case fails w Save of
        None \<Rightarrow> (Inr (), logging_info (''Data saved successfully to '' @ output_path)
                          (w\<lparr>written := (written w)(output_path \<mapsto> data)\<rparr>))
      | Some e \<Rightarrow> (Inl e, logging_error
                   (''An error occurred while saving data: '' @ message e) w))"

subsection \<open>process_pipeline\<close>

text \<open>
  The handler of \<open>process_pipeline\<close> catches \<open>Exception\<close>, logs and falls off the end of
  the function. The result is kept as a sum so that returning normally is a property
  to prove, not a matter of the type.
\<close>

definition pipeline_failed :: "exn \<Rightarrow> world \<Rightarrow> (exn + unit) \<times> world" where
  "pipeline_failed e w = (Inr (), logging_error (''Pipeline failed: '' @ message e) w)"

definition process_pipeline :: "world \<Rightarrow> string \<Rightarrow> string \<Rightarrow> (exn + unit) \<times> world" where
  "process_pipeline w input_file output_file =
     (case load_data w input_file of
        (Inl e, w1) \<Rightarrow> pipeline_failed e w1
      | (Inr data, w1) \<Rightarrow>
     (case standardize_column_names w1 data of
        (Inl e, w2) \<Rightarrow> pipeline_failed e w2
      | (Inr data2, w2) \<Rightarrow>
     (case cleanse_data w2 data2 of
        (Inl e, w3) \<Rightarrow> pipeline_failed e w3
      | (Inr data3, w3) \<Rightarrow>
     (case validate_data w3 data3 of
        (Inl e, w4) \<Rightarrow> pipeline_failed e w4
      | (Inr u, w4) \<Rightarrow>
     (case save_data w4 data3 output_file of
        (Inl e, w5) \<Rightarrow> pipeline_failed e w5
      | (Inr u', w5) \<Rightarrow>
          (Inr (), logging_info ''Data pipeline completed successfully.'' w5))))))"

subsection \<open>Notions used in the statements\<close>

text \<open>The table \<open>standardize_column_names\<close> returns.\<close>

definition standardized :: "unicode_db \<Rightarrow> dataframe \<Rightarrow> dataframe" where
  "standardized db data = map (\<lambda>(col, s). (standardize_name db col, s)) data"

text \<open>
  A character that \<open>lower\<close> leaves alone wherever it stands, and the property of the
  lowercase table that makes every lowercased string such: outside ASCII, a lowercase
  mapping is not empty, consists of characters that \<open>lower\<close> leaves alone, and puts no
  white space in the place of another character. Both small sigmas are left alone.
\<close>

definition lowered :: "unicode_db \<Rightarrow> nat \<Rightarrow> bool" where
  "lowered db d = (d \<noteq> 0x3A3 \<and> lower_full db d = [d])"

definition lowercase_stable :: "unicode_db \<Rightarrow> bool" where
  "lowercase_stable db =
     (lowered db 0x3C2 \<and> lowered db 0x3C3 \<and>
      (\<forall>c. 128 \<le> c \<and> c \<noteq> 0x3A3 \<longrightarrow>
         to_lower db c \<noteq> [] \<and>
         (\<forall>d \<in> set (to_lower db c). lowered db d \<and> (isspace d \<longrightarrow> isspace c))))"

text \<open>The columns a label selects, as \<open>data[k]\<close> does.\<close>

definition labelled :: "str \<Rightarrow> dataframe \<Rightarrow> dataframe" where
  "labelled k data = filter (\<lambda>(col, s). col = k) data"

text \<open>
  The table after the two \<open>fillna\<close> calls of \<open>cleanse_data\<close>, and the mask of the rows
  \<open>drop_duplicates\<close> then keeps: the first occurrences among the filled rows.
\<close>

definition filled :: "dataframe \<Rightarrow> dataframe" where
  "filled data = fillna_all [] (fillna_series (median_numeric_only data) data)"

definition kept :: "dataframe \<Rightarrow> bool list" where
  "kept data = map Not (duplicated (filled data))"

text \<open>
  What \<open>fillna\<close> with the Series of medians does to one column: the fills of the
  entries that carry the column's label, in the order of the entries.
\<close>

definition fill_column :: "(str \<times> float64) list \<Rightarrow> str \<Rightarrow> series \<Rightarrow> series" where
  "fill_column med col s = fold (\<lambda>(k, v) t. if col = k then fillna_float v t else t) med s"

text \<open>
  A cell of the cleansed table against the input cell it comes from: the same cell, or
  the input cell was missing.
\<close>

definition fills :: "cell \<Rightarrow> cell \<Rightarrow> bool" where
  "fills out inp = (out = inp \<or> isna inp)"

definition column_fills :: "str \<times> series \<Rightarrow> str \<times> series \<Rightarrow> bool" where
  "column_fills out inp =
     (fst out = fst inp \<and> list_all2 fills (cells (snd out)) (cells (snd inp)))"

text \<open>A cell holding a Python \<open>int\<close>.\<close>

fun is_int_cell :: "cell \<Rightarrow> bool" where
  "is_int_cell (CInt i) = True"
| "is_int_cell c = False"

text \<open>The dtypes for which \<open>np.issubdtype(dtype, np.integer)\<close> holds.\<close>

fun is_integer_dtype :: "series \<Rightarrow> bool" where
  "is_integer_dtype (IntS xs) = True"
| "is_integer_dtype s = False"

text \<open>The message of the rule an age column breaks when it holds a negative value.\<close>

definition age_message :: "series \<Rightarrow> string" where
  "age_message s =
     (if is_integer_dtype s then ''Age column contains negative values''
      else ''Age column must be integer type'')"

text \<open>A float64 value that is a finite number.\<close>

fun is_finite :: "float64 \<Rightarrow> bool" where
  "is_finite (Fin r) = True"
| "is_finite x = False"

subsection \<open>Example inputs\<close>

text \<open>A lowercase table that maps nothing outside ASCII, but the capital sigma.\<close>

definition plain_db :: unicode_db where
  "plain_db =
     \<lparr>to_lower = (\<lambda>c. if c = 0x3A3 then [0x3C3] else [c]),
      cased = (\<lambda>c. False), case_ignorable = (\<lambda>c. False)\<rparr>"

text \<open>A world with no input files, in which no pandas call fails.\<close>

definition quiet_world :: world where
  "quiet_world =
     \<lparr>source = (\<lambda>p. NoSuchFile), fails = (\<lambda>s. None), unicode = plain_db,
      written = Map.empty, log = []\<rparr>"

text \<open>
  The table \<open>read_csv\<close> returns for the header \<open>" Name , Age "\<close> and the records
  \<open>Alice,30\<close> and \<open>alice,\<close>: a column with a missing field is read as float64. Then the
  same table after \<open>standardize_column_names\<close>, and after \<open>cleanse_data\<close>.
\<close>

definition alice_frame :: dataframe where
  "alice_frame =
     [(ustr '' Name '', ObjS [CStr ''Alice'', CStr ''alice'']), (ustr '' Age '', FloatS [Fin 30, NaN])]"

definition alice_world :: world where
  "alice_world =
     quiet_world\<lparr>source := (\<lambda>p. if p = ''input_data.csv'' then Csv alice_frame else NoSuchFile)\<rparr>"

definition alice_std :: dataframe where
  "alice_std =
     [(ustr ''name'', ObjS [CStr ''Alice'', CStr ''alice'']), (ustr ''age'', FloatS [Fin 30, NaN])]"

definition alice_clean :: dataframe where
  "alice_clean =
     [(ustr ''name'', ObjS [CStr ''Alice'', CStr ''alice'']), (ustr ''age'', FloatS [Fin 30, Fin 30])]"

text \<open>
  A table with a repeated record and missing fields, a table without repeated records,
  and a table in which two columns carry one label (the headers \<open>a\<close> and \<open>A\<close> of one
  file) and a third column has values but no median.
\<close>

definition repeats_frame :: dataframe where
  "repeats_frame =
     [(ustr ''name'', ObjS [CStr ''a'', CStr ''a'', CFloat NaN, CStr ''a'']),
      (ustr ''score'', FloatS [Fin 1, Fin 1, Fin 3, NaN])]"

definition scores_frame :: dataframe where
  "scores_frame =
     [(ustr ''id'', IntS [1, 2, 3, 4]), (ustr ''score'', FloatS [Fin 1, NaN, Fin 3, NaN])]"

definition shared_label_frame :: dataframe where
  "shared_label_frame =
     [(ustr ''a'', IntS [1, 3, 5]),
      (ustr ''a'', FloatS [Fin 10, NaN, Fin 20]),
      (ustr ''x'', FloatS [PInf, NInf, NaN])]"

text \<open>
  Tables for \<open>validate_data\<close>: an age column with a non-integer and a negative value,
  and two tables in which two columns carry the label \<open>age\<close> (the headers \<open>Age\<close> and
  \<open>age\<close> of one file are both standardized to it).
\<close>

definition fractional_age_frame :: dataframe where
  "fractional_age_frame = [(ustr ''age'', FloatS [Fin (7 / 2), Fin (- 1)])]"

definition two_ages_frame :: dataframe where
  "two_ages_frame = [(ustr ''age'', FloatS [Fin (7 / 2)]), (ustr ''age'', IntS [1])]"

definition two_ages_missing_frame :: dataframe where
  "two_ages_missing_frame = [(ustr ''age'', FloatS [NaN, Fin 1]), (ustr ''age'', IntS [1, 2])]"

text \<open>Input files: an integer age column with a negative value, and the float64 one.\<close>

definition negative_age_frame :: dataframe where
  "negative_age_frame =
     [(ustr ''Name'', ObjS [CStr ''Bob'', CStr ''Eve'']), (ustr ''Age'', IntS [30, - 1])]"

definition negative_age_world :: world where
  "negative_age_world =
     quiet_world\<lparr>source :=
       (\<lambda>p. if p = ''input_data.csv'' then Csv negative_age_frame else NoSuchFile)\<rparr>"

definition fractional_age_world :: world where
  "fractional_age_world =
     quiet_world\<lparr>source :=
       (\<lambda>p. if p = ''input_data.csv'' then Csv fractional_age_frame else NoSuchFile)\<rparr>"

section \<open>Properties\<close>

subsection \<open>Column names\<close>

lemma ustr_simps: "ustr [] = []" "ustr (c # cs) = of_char c # ustr cs"
  by (simp_all add: ustr_def)

lemma ustr_eq_iff [simp]: "ustr s = ustr t \<longleftrightarrow> s = t"
  unfolding ustr_def by (rule inj_map_eq_map) (simp add: inj_on_def)

text \<open>What \<open>strip\<close> returns is empty or has no white space at either end.\<close>

lemma strip_ends:
  "strip s = [] \<or> (\<not> isspace (hd (strip s)) \<and> \<not> isspace (last (strip s)))"
proof (cases "strip s = []")
  case True
  then show ?thesis by simp
next
  case False
  define a where "a = dropWhile isspace s"
  define b where "b = dropWhile isspace (rev a)"
  have s: "strip s = rev b" by (simp add: strip_def a_def b_def)
  with False have b: "b \<noteq> []" by simp
  then have "\<not> isspace (hd b)" unfolding b_def by (rule hd_dropWhile)
  then have l: "\<not> isspace (last (strip s))" using b by (simp add: s last_rev)
  obtain us where us: "rev a = us @ b"
    unfolding b_def by (metis takeWhile_dropWhile_id)
  then have "last (rev a) = last b" using b by simp
  moreover have a: "a \<noteq> []" using us b by auto
  ultimately have "hd a = last b" by (simp add: last_rev)
  moreover have "\<not> isspace (hd a)" using a unfolding a_def by (rule hd_dropWhile)
  ultimately have "\<not> isspace (hd (strip s))" using b by (simp add: s hd_rev)
  with l show ?thesis by simp
qed

lemma strip_fixed:
  assumes "t = [] \<or> (\<not> isspace (hd t) \<and> \<not> isspace (last t))"
  shows "strip t = t"
proof (cases "t = []")
  case True
  then show ?thesis by (simp add: strip_def)
next
  case False
  with assms have h: "\<not> isspace (hd t)" and l: "\<not> isspace (last t)" by auto
  have 1: "dropWhile isspace t = t" using h False by (cases t) auto
  have "\<not> isspace (hd (rev t))" using l False by (simp add: hd_rev)
  then have 2: "dropWhile isspace (rev t) = rev t" using False by (cases "rev t") auto
  show ?thesis by (simp add: strip_def 1 2)
qed

text \<open>
  Under a stable table, what one character is lowercased to: not empty, left alone by a
  second \<open>lower\<close>, and without white space unless the character was white space.
\<close>

lemma lowered_ascii: "c < 128 \<Longrightarrow> lowered db (ascii_lower c)"
  by (auto simp: lowered_def lower_full_def ascii_lower_def)

lemma isspace_ascii_lower: "isspace (ascii_lower c) \<Longrightarrow> isspace c"
  by (auto simp: isspace_def ascii_lower_def split: if_splits)

lemma not_isspace_sigma: "\<not> isspace 0x3C2" "\<not> isspace 0x3C3" "\<not> isspace 0x3A3"
  by (simp_all add: isspace_def)

lemma lowered_block:
  assumes "lowercase_stable db"
  shows "(if c = 0x3A3 then [if f then 0x3C2 else 0x3C3] else lower_full db c) \<noteq> [] \<and>
         (\<forall>d \<in> set (if c = 0x3A3 then [if f then 0x3C2 else 0x3C3] else lower_full db c).
            lowered db d \<and> (isspace d \<longrightarrow> isspace c))"
proof (cases "c = 0x3A3")
  case True
  then show ?thesis using assms by (simp add: lowercase_stable_def not_isspace_sigma)
next
  case False
  show ?thesis
  proof (cases "c < 128")
    case True
    then show ?thesis
      using False lowered_ascii [of c db] isspace_ascii_lower [of c] by (simp add: lower_full_def)
  next
    case large: False
    then have "to_lower db c \<noteq> [] \<and>
        (\<forall>d \<in> set (to_lower db c). lowered db d \<and> (isspace d \<longrightarrow> isspace c))"
      using assms False unfolding lowercase_stable_def by (metis not_less)
    then show ?thesis using False large by (simp add: lower_full_def)
  qed
qed

lemma lower_from_lowered:
  "lowercase_stable db \<Longrightarrow> d \<in> set (lower_from db b s) \<Longrightarrow> lowered db d"
proof (induction s arbitrary: b)
  case Nil
  then show ?case by simp
next
  case (Cons c cs)
  then show ?case
    using lowered_block [OF Cons.prems(1), of c "final_sigma db b cs"] by auto
qed

lemma lower_from_fixed: "\<forall>d \<in> set s. lowered db d \<Longrightarrow> lower_from db b s = s"
  by (induction s arbitrary: b) (auto simp: lowered_def)

lemma lower_from_empty: "lowercase_stable db \<Longrightarrow> lower_from db b s = [] \<Longrightarrow> s = []"
proof (cases s)
  case Nil
  then show ?thesis by simp
next
  case (Cons c cs)
  assume "lowercase_stable db" and "lower_from db b s = []"
  then show ?thesis
    using lowered_block [of db c "final_sigma db b cs"] by (simp add: Cons)
qed

lemma hd_lower_from:
  assumes "lowercase_stable db" and "s \<noteq> []" and "\<not> isspace (hd s)"
  shows "\<not> isspace (hd (lower_from db b s))"
proof -
  obtain c cs where s: "s = c # cs" using assms(2) by (cases s) auto
  let ?blk = "if c = 0x3A3 then [if final_sigma db b cs then 0x3C2 else 0x3C3] else lower_full db c"
  have blk: "?blk \<noteq> []" "\<forall>d \<in> set ?blk. isspace d \<longrightarrow> isspace c"
    using lowered_block [OF assms(1), of c "final_sigma db b cs"] by auto
  from blk(1) have "hd ?blk \<in> set ?blk" by (rule hd_in_set)
  then have "\<not> isspace (hd ?blk)" using blk(2) assms(3) s by auto
  moreover have "hd (lower_from db b s) = hd ?blk" using blk(1) by (simp add: s)
  ultimately show ?thesis by simp
qed

lemma last_lower_from:
  "lowercase_stable db \<Longrightarrow> s \<noteq> [] \<Longrightarrow> \<not> isspace (last s) \<Longrightarrow>
   \<not> isspace (last (lower_from db b s))"
proof (induction s arbitrary: b)
  case Nil
  then show ?case by simp
next
  case (Cons c cs)
  let ?blk = "if c = 0x3A3 then [if final_sigma db b cs then 0x3C2 else 0x3C3] else lower_full db c"
  have blk: "?blk \<noteq> []" "\<forall>d \<in> set ?blk. isspace d \<longrightarrow> isspace c"
    using lowered_block [OF Cons.prems(1), of c "final_sigma db b cs"] by auto
  show ?case
  proof (cases "cs = []")
    case True
    then have "\<not> isspace c" using Cons.prems(3) by simp
    moreover from blk(1) have "last ?blk \<in> set ?blk" by (rule last_in_set)
    ultimately have nb: "\<not> isspace (last ?blk)" using blk(2) by auto
    have eq: "lower_from db b (c # cs) = ?blk" using True by simp
    show ?thesis unfolding eq by (rule nb)
  next
    case False
    then have "\<not> isspace (last (lower_from db (c # b) cs))"
      using Cons.IH [of "c # b"] Cons.prems by simp
    moreover have "lower_from db (c # b) cs \<noteq> []"
      using False lower_from_empty [OF Cons.prems(1)] by blast
    ultimately show ?thesis by simp
  qed
qed

text \<open>A standardized name is a fixed point of \<open>standardize_name\<close>.\<close>

lemma standardize_name_idem:
  assumes "lowercase_stable db"
  shows "standardize_name db (standardize_name db s) = standardize_name db s"
proof -
  let ?t = "strip s"
  let ?u = "lower db ?t"
  let ?v = "replace_space ?u"
  have underscore: "lowered db 0x5F"
    by (simp add: lowered_def lower_full_def ascii_lower_def)
  have low: "\<forall>d \<in> set ?v. lowered db d"
    using lower_from_lowered [OF assms, of _ "[]" ?t] underscore
    by (auto simp: replace_space_def lower_def)
  have nosp: "0x20 \<notin> set ?v" by (auto simp: replace_space_def)
  have ends: "?v = [] \<or> (\<not> isspace (hd ?v) \<and> \<not> isspace (last ?v))"
  proof (cases "?t = []")
    case True
    then show ?thesis by (simp add: lower_def replace_space_def)
  next
    case False
    with strip_ends [of s] have e: "\<not> isspace (hd ?t)" "\<not> isspace (last ?t)" by auto
    have u: "?u \<noteq> []" using False lower_from_empty [OF assms, of "[]" ?t] by (auto simp: lower_def)
    have "\<not> isspace (hd ?u)" "\<not> isspace (last ?u)"
      unfolding lower_def
      using hd_lower_from [OF assms False e(1)] last_lower_from [OF assms False e(2)] by auto
    then have "\<not> isspace (hd ?v)" "\<not> isspace (last ?v)"
      using u by (auto simp: replace_space_def hd_map last_map isspace_def)
    then show ?thesis by simp
  qed
  have "strip ?v = ?v" using ends by (rule strip_fixed)
  moreover have "lower db ?v = ?v"
  proof -
    have "lower db ?v = lower_from db [] ?v" by (fact lower_def)
    also have "\<dots> = ?v" using low by (rule lower_from_fixed)
    finally show ?thesis .
  qed
  moreover have "replace_space ?v = ?v"
    using nosp unfolding replace_space_def by (induction ?v) auto
  ultimately show ?thesis by (simp add: standardize_name_def)
qed

lemma lowercase_stable_plain: "lowercase_stable plain_db"
  by (auto simp: lowercase_stable_def lowered_def lower_full_def plain_db_def)

lemma standardize_Age: "standardize_name db (ustr '' Age '') = ustr ''age''"
  by (simp add: standardize_name_def strip_def isspace_def lower_def lower_full_def ascii_lower_def
      replace_space_def ustr_simps)

lemma standardize_Name: "standardize_name db (ustr '' Name '') = ustr ''name''"
  by (simp add: standardize_name_def strip_def isspace_def lower_def lower_full_def ascii_lower_def
      replace_space_def ustr_simps)

text \<open>
  C7: \<open>standardize_column_names\<close> is idempotent. When it returns a table, applying it to
  that table returns again, with the same column names; the table itself is the same.
  The lowercase table of the runtime is taken to be stable, as that of Unicode is.
\<close>

theorem standardize_column_names_idempotent:
  assumes "standardize_column_names w data = (Inr data1, w1)"
    and "lowercase_stable (unicode w)"
  shows "\<exists>data2 w2. standardize_column_names w1 data1 = (Inr data2, w2) \<and>
           columns data2 = columns data1 \<and> data2 = data1"
proof -
  from assms(1) have f: "fails w Standardize = None"
    and d: "data1 = map (\<lambda>(col, s). (standardize_name (unicode w) col, s)) data"
    and w: "w1 = logging_info ''Column names standardized.'' w"
    by (auto simp: standardize_column_names_def split: option.splits)
  have "fails w1 Standardize = None" and u: "unicode w1 = unicode w"
    using f by (simp_all add: w logging_info_def)
  moreover have "map (\<lambda>(col, s). (standardize_name (unicode w) col, s)) data1 = data1"
    by (auto simp: d standardize_name_idem [OF assms(2)])
  ultimately show ?thesis by (simp add: standardize_column_names_def)
qed

theorem standardize_column_names_idempotent_witness:
  "standardize_column_names quiet_world alice_frame =
     (Inr alice_std, logging_info ''Column names standardized.'' quiet_world) \<and>
   lowercase_stable (unicode quiet_world) \<and>
   (\<exists>data2 w2.
      standardize_column_names (logging_info ''Column names standardized.'' quiet_world) alice_std
        = (Inr data2, w2) \<and>
      columns data2 = [ustr ''name'', ustr ''age''])"
proof -
  have h: "standardize_column_names quiet_world alice_frame =
     (Inr alice_std, logging_info ''Column names standardized.'' quiet_world)"
    by (simp add: standardize_column_names_def quiet_world_def alice_frame_def alice_std_def
        standardize_Age standardize_Name)
  have st: "lowercase_stable (unicode quiet_world)"
    by (simp add: quiet_world_def lowercase_stable_plain)
  have "columns alice_std = [ustr ''name'', ustr ''age'']" by (simp add: columns_def alice_std_def)
  then show ?thesis using h st standardize_column_names_idempotent [OF h st] by auto
qed

subsection \<open>The orchestrator\<close>

text \<open>
  C8: when the input path does not refer to an existing file, \<open>load_data\<close> logs
  "File not found" and raises the FileNotFoundError; \<open>process_pipeline\<close> logs the
  failure after it and returns, and the files written are those written before.
\<close>

theorem missing_input_file:
  assumes "source w input_file = NoSuchFile"
  shows "\<exists>e. load_data w input_file =
            (Inl e, logging_error (''File not found: '' @ input_file) w) \<and>
          etype e = FileNotFoundError \<and>
          process_pipeline w input_file output_file =
            (Inr (), logging_error (''Pipeline failed: '' @ message e)
                       (logging_error (''File not found: '' @ input_file) w)) \<and>
          written (snd (process_pipeline w input_file output_file)) = written w"
  using assms
  by (simp add: load_data_def read_csv_def process_pipeline_def pipeline_failed_def
      logging_error_def)

theorem missing_input_file_witness:
  "source quiet_world ''input_data.csv'' = NoSuchFile \<and>
   log (snd (process_pipeline quiet_world ''input_data.csv'' ''output_data.csv'')) =
     [(ERROR, ''File not found: input_data.csv''),
      (ERROR, ''Pipeline failed: [Errno 2] No such file or directory: ''
                @ quoted ''input_data.csv'')] \<and>
   written (snd (process_pipeline quiet_world ''input_data.csv'' ''output_data.csv'')) = Map.empty"
proof -
  have h: "source quiet_world ''input_data.csv'' = NoSuchFile" by (simp add: quiet_world_def)
  show ?thesis
    using h missing_input_file [OF h, of "''output_data.csv''"]
    by (auto simp: load_data_def read_csv_def logging_error_def quiet_world_def)
qed

lemma cleanse_alice: "cleanse alice_std = alice_clean"
  by code_simp

lemma age_rules_alice:
  "age_rules alice_clean = Inl (Exn ValueError ''Age column must be integer type'')"
  by (simp add: age_rules_def alice_clean_def)

lemma load_alice:
  "load_data alice_world ''input_data.csv'' =
     (Inr alice_frame, logging_info ''Data loaded successfully from input_data.csv'' alice_world)"
  by (simp add: load_data_def read_csv_def alice_world_def)

lemma fails_logging_info: "fails (logging_info m w) = fails w"
  by (simp add: logging_info_def)

lemma unicode_logging_info: "unicode (logging_info m w) = unicode w"
  by (simp add: logging_info_def)

lemma fails_alice_world: "fails alice_world s = None"
  by (simp add: alice_world_def quiet_world_def)

lemma standardize_alice:
  "fails w Standardize = None \<Longrightarrow>
   standardize_column_names w alice_frame =
     (Inr alice_std, logging_info ''Column names standardized.'' w)"
  by (simp add: standardize_column_names_def alice_frame_def alice_std_def
      standardize_Age standardize_Name)

lemma cleanse_data_alice:
  "fails w Cleanse = None \<Longrightarrow>
   cleanse_data w alice_std = (Inr alice_clean, logging_info ''Data cleansing completed.'' w)"
  by (simp add: cleanse_data_def cleanse_alice)

lemma validate_alice:
  "validate_data w alice_clean =
     (Inl (Exn ValueError ''Age column must be integer type''),
      logging_error ''Data validation error: Age column must be integer type'' w)"
  by (simp add: validate_data_def age_rules_alice)

text \<open>Every stage that is invoked leaves exactly one record in the log.\<close>

lemma load_data_logs: "length (log (snd (load_data w p))) = Suc (length (log w))"
  by (simp add: load_data_def logging_info_def logging_error_def split: sum.splits)

lemma standardize_column_names_logs:
  "length (log (snd (standardize_column_names w d))) = Suc (length (log w))"
  by (simp add: standardize_column_names_def logging_info_def logging_error_def
      split: option.splits)

lemma cleanse_data_logs: "length (log (snd (cleanse_data w d))) = Suc (length (log w))"
  by (simp add: cleanse_data_def logging_info_def logging_error_def split: option.splits)

lemma validate_data_logs: "length (log (snd (validate_data w d))) = Suc (length (log w))"
  by (simp add: validate_data_def logging_info_def logging_error_def split: sum.splits)

lemma save_data_logs: "length (log (snd (save_data w d p))) = Suc (length (log w))"
  by (simp add: save_data_def logging_info_def logging_error_def split: option.splits)

text \<open>
  C1: \<open>process_pipeline\<close> returns normally on every pair of paths in every world. When a
  stage raises, after the stages before it have returned, the world \<open>process_pipeline\<close>
  leaves is the one the failing stage left with one more record, the pipeline-level
  error: no later stage has added a record or written a file.
\<close>

theorem process_pipeline_never_raises:
  "fst (process_pipeline w input_file output_file) = Inr () \<and>
   (\<forall>e w1. load_data w input_file = (Inl e, w1) \<longrightarrow>
      snd (process_pipeline w input_file output_file) =
        logging_error (''Pipeline failed: '' @ message e) w1) \<and>
   (\<forall>d1 w1 e w2. load_data w input_file = (Inr d1, w1) \<and>
        standardize_column_names w1 d1 = (Inl e, w2) \<longrightarrow>
      snd (process_pipeline w input_file output_file) =
        logging_error (''Pipeline failed: '' @ message e) w2) \<and>
   (\<forall>d1 w1 d2 w2 e w3. load_data w input_file = (Inr d1, w1) \<and>
        standardize_column_names w1 d1 = (Inr d2, w2) \<and>
        cleanse_data w2 d2 = (Inl e, w3) \<longrightarrow>
      snd (process_pipeline w input_file output_file) =
        logging_error (''Pipeline failed: '' @ message e) w3) \<and>
   (\<forall>d1 w1 d2 w2 d3 w3 e w4. load_data w input_file = (Inr d1, w1) \<and>
        standardize_column_names w1 d1 = (Inr d2, w2) \<and>
        cleanse_data w2 d2 = (Inr d3, w3) \<and>
        validate_data w3 d3 = (Inl e, w4) \<longrightarrow>
      snd (process_pipeline w input_file output_file) =
        logging_error (''Pipeline failed: '' @ message e) w4) \<and>
   (\<forall>d1 w1 d2 w2 d3 w3 u w4 e w5. load_data w input_file = (Inr d1, w1) \<and>
        standardize_column_names w1 d1 = (Inr d2, w2) \<and>
        cleanse_data w2 d2 = (Inr d3, w3) \<and>
        validate_data w3 d3 = (Inr u, w4) \<and>
        save_data w4 d3 output_file = (Inl e, w5) \<longrightarrow>
      snd (process_pipeline w input_file output_file) =
        logging_error (''Pipeline failed: '' @ message e) w5)"
  by (simp add: process_pipeline_def pipeline_failed_def split: prod.splits sum.splits)

theorem process_pipeline_never_raises_witness:
  "fst (process_pipeline alice_world ''input_data.csv'' ''output_data.csv'') = Inr () \<and>
   validate_data
     (logging_info ''Data cleansing completed.''
       (logging_info ''Column names standardized.''
         (logging_info ''Data loaded successfully from input_data.csv'' alice_world)))
     alice_clean =
     (Inl (Exn ValueError ''Age column must be integer type''),
      logging_error ''Data validation error: Age column must be integer type''
       (logging_info ''Data cleansing completed.''
         (logging_info ''Column names standardized.''
           (logging_info ''Data loaded successfully from input_data.csv'' alice_world)))) \<and>
   snd (process_pipeline alice_world ''input_data.csv'' ''output_data.csv'') =
     logging_error ''Pipeline failed: Age column must be integer type''
      (logging_error ''Data validation error: Age column must be integer type''
        (logging_info ''Data cleansing completed.''
          (logging_info ''Column names standardized.''
            (logging_info ''Data loaded successfully from input_data.csv'' alice_world))))"
proof -
  let ?w1 = "logging_info ''Data loaded successfully from input_data.csv'' alice_world"
  let ?w2 = "logging_info ''Column names standardized.'' ?w1"
  let ?w3 = "logging_info ''Data cleansing completed.'' ?w2"
  let ?e = "Exn ValueError ''Age column must be integer type''"
  let ?w4 = "logging_error ''Data validation error: Age column must be integer type'' ?w3"
  have 2: "standardize_column_names ?w1 alice_frame = (Inr alice_std, ?w2)"
    by (rule standardize_alice) (simp add: fails_logging_info fails_alice_world)
  have 3: "cleanse_data ?w2 alice_std = (Inr alice_clean, ?w3)"
    by (rule cleanse_data_alice) (simp add: fails_logging_info fails_alice_world)
  have 4: "validate_data ?w3 alice_clean = (Inl ?e, ?w4)"
    by (rule validate_alice)
  have "snd (process_pipeline alice_world ''input_data.csv'' ''output_data.csv'') =
          logging_error (''Pipeline failed: '' @ message ?e) ?w4"
    using process_pipeline_never_raises [of alice_world "''input_data.csv''" "''output_data.csv''"]
      load_alice 2 3 4 by blast
  moreover have "fst (process_pipeline alice_world ''input_data.csv'' ''output_data.csv'') = Inr ()"
    using process_pipeline_never_raises [of alice_world "''input_data.csv''" "''output_data.csv''"]
    by blast
  ultimately show ?thesis using 4 by simp
qed

subsection \<open>Masks, rows and first occurrences\<close>

lemma select_map: "select m (map f xs) = map f (select m xs)"
  by (induction m xs rule: select.induct) auto

lemma select_zip: "select m (zip xs ys) = zip (select m xs) (select m ys)"
proof (induction m xs arbitrary: ys rule: select.induct)
  case (1 b bs x xs)
  then show ?case by (cases ys) auto
qed simp_all

lemma set_select: "set (select m xs) \<subseteq> set xs"
  by (induction m xs rule: select.induct) auto

lemma subseq_select: "subseq (select m xs) xs"
  by (induction m xs rule: select.induct) auto

lemma nth_select:
  "q < length m \<Longrightarrow> q < length xs \<Longrightarrow> m ! q \<Longrightarrow> xs ! q \<in> set (select m xs)"
proof (induction m xs arbitrary: q rule: select.induct)
  case (1 b bs x xs)
  then show ?case by (cases q) auto
qed auto

lemma cells_select_series: "cells (select_series m s) = select m (cells s)"
  by (cases s) (simp_all add: select_map)

lemma rows_select:
  "rows (map (\<lambda>(col, s). (col, select_series m s)) df) = select m (rows df)"
proof (induction df rule: rows.induct)
  case 1
  then show ?case by simp
next
  case (2 n s)
  then show ?case by (simp add: cells_select_series select_map)
next
  case (3 n s c cs)
  then show ?case
    by (cases c) (simp add: cells_select_series select_map select_zip)
qed

text \<open>The rows the mask keeps have pairwise different keys, none of them seen before.\<close>

lemma first_occurrences:
  "distinct (map f (select (map Not (duplicated_from seen (map f xs))) xs)) \<and>
   f ` set (select (map Not (duplicated_from seen (map f xs))) xs) \<inter> set seen = {}"
proof (induction xs arbitrary: seen)
  case Nil
  then show ?case by simp
next
  case (Cons x xs)
  from Cons [of "f x # seen"] show ?case by auto
qed

lemma rows_drop_duplicates:
  "rows (drop_duplicates df) = select (map Not (duplicated df)) (rows df)"
  by (simp add: drop_duplicates_def rows_select)

lemma distinct_rows_drop_duplicates: "distinct (map row_key (rows (drop_duplicates df)))"
  using first_occurrences [of row_key "[]" "rows df"]
  by (simp add: rows_drop_duplicates duplicated_def)

subsection \<open>What cleansing keeps and what it removes\<close>

lemma cleanse_filled: "cleanse data = drop_duplicates (filled data)"
  by (simp add: cleanse_def filled_def)

lemma cleanse_kept:
  "cleanse data = map (\<lambda>(col, s). (col, select_series (kept data) s)) (filled data)"
  by (simp add: cleanse_filled drop_duplicates_def kept_def)

lemma cleanse_data_returns:
  "cleanse_data w data = (Inr data', w') \<Longrightarrow> data' = cleanse data"
  by (auto simp: cleanse_data_def split: option.splits)

lemma columns_drop_duplicates: "columns (drop_duplicates df) = columns df"
  by (auto simp: drop_duplicates_def columns_def)

lemma columns_fillna_all: "columns (fillna_all v df) = columns df"
  by (auto simp: fillna_all_def columns_def)

lemma columns_fillna_label: "columns (fillna_label k v df) = columns df"
  by (auto simp: fillna_label_def columns_def)

lemma columns_fillna_series: "columns (fillna_series med df) = columns df"
  unfolding fillna_series_def
  by (induction med arbitrary: df) (auto simp: columns_fillna_label)

lemma columns_filled: "columns (filled df) = columns df"
  by (simp add: filled_def columns_fillna_all columns_fillna_series)

lemma columns_cleanse: "columns (cleanse df) = columns df"
  by (simp add: cleanse_filled columns_drop_duplicates columns_filled)

lemma notna_fillna_str: "CFloat NaN \<notin> set (cells (fillna_str v s))"
  by (cases s) (auto simp: isna_def)

lemma notna_cleanse:
  assumes "(col, s) \<in> set (cleanse df)"
  shows "CFloat NaN \<notin> set (cells s)"
proof -
  from assms obtain m t where s: "s = select_series m (fillna_str [] t)"
    by (auto simp: cleanse_def drop_duplicates_def fillna_all_def Let_def)
  show ?thesis unfolding s cells_select_series
    using set_select [of m "cells (fillna_str [] t)"] notna_fillna_str [of "[]" t] by auto
qed

lemma cleanse_repeats:
  "cleanse repeats_frame =
     [(ustr ''name'', ObjS [CStr ''a'', CStr []]), (ustr ''score'', FloatS [Fin 1, Fin 3])]"
  by code_simp

text \<open>
  C3: when \<open>cleanse_data\<close> returns a table, no cell of the table is the missing marker,
  and no two rows of the table are cell-wise identical (the rows are pairwise distinct).
\<close>

theorem cleanse_data_no_missing_no_duplicates:
  assumes "cleanse_data w data = (Inr data', w')"
  shows "(\<forall>(col, s) \<in> set data'. \<forall>c \<in> set (cells s). \<not> isna c) \<and> distinct (rows data')"
proof -
  have d: "data' = cleanse data" using assms by (rule cleanse_data_returns)
  have "distinct (map row_key (rows data'))"
    unfolding d cleanse_filled by (rule distinct_rows_drop_duplicates)
  then have "distinct (rows data')" by (simp add: distinct_map)
  moreover have "\<forall>(col, s) \<in> set data'. \<forall>c \<in> set (cells s). \<not> isna c"
    using notna_cleanse [of _ _ data] by (auto simp: d isna_def)
  ultimately show ?thesis by simp
qed

theorem cleanse_data_no_missing_no_duplicates_witness:
  "cleanse_data quiet_world repeats_frame =
     (Inr [(ustr ''name'', ObjS [CStr ''a'', CStr []]), (ustr ''score'', FloatS [Fin 1, Fin 3])],
      logging_info ''Data cleansing completed.'' quiet_world) \<and>
   \<not> isna (CStr ''a'') \<and> \<not> isna (CStr []) \<and> \<not> isna (CFloat (Fin 1)) \<and> \<not> isna (CFloat (Fin 3)) \<and>
   distinct [[CStr ''a'', CFloat (Fin 1)], [CStr [], CFloat (Fin 3)]]"
proof -
  have h: "cleanse_data quiet_world repeats_frame =
     (Inr [(ustr ''name'', ObjS [CStr ''a'', CStr []]), (ustr ''score'', FloatS [Fin 1, Fin 3])],
      logging_info ''Data cleansing completed.'' quiet_world)"
    by (simp add: cleanse_data_def quiet_world_def cleanse_repeats)
  show ?thesis using h cleanse_data_no_missing_no_duplicates [OF h] by simp
qed

subsection \<open>Cleansing changes missing cells only, in place\<close>

lemma fills_refl: "fills c c"
  by (simp add: fills_def)

lemma fills_trans: "fills a b \<Longrightarrow> fills b c \<Longrightarrow> fills a c"
  by (auto simp: fills_def)

lemma column_fills_refl: "column_fills c c"
  by (simp add: column_fills_def list_all2_refl fills_refl)

lemma column_fills_trans: "column_fills a b \<Longrightarrow> column_fills b c \<Longrightarrow> column_fills a c"
  unfolding column_fills_def
  using list_all2_trans [of fills fills fills] fills_trans by fastforce

lemma fills_fillna_float: "list_all2 fills (cells (fillna_float v s)) (cells s)"
  by (cases s) (auto simp: list_all2_map1 list_all2_map2 fills_def isna_def intro!: list_all2_refl)

lemma fills_fillna_str: "list_all2 fills (cells (fillna_str v s)) (cells s)"
  by (cases s) (auto simp: list_all2_map1 list_all2_map2 fills_def isna_def intro!: list_all2_refl)

lemma fills_fillna_label: "list_all2 column_fills (fillna_label k v df) df"
  by (induction df) (auto simp: fillna_label_def column_fills_def fills_fillna_float
      fills_refl intro!: list_all2_refl)

lemma frame_fills_trans:
  "list_all2 column_fills a b \<Longrightarrow> list_all2 column_fills b c \<Longrightarrow> list_all2 column_fills a c"
  using list_all2_trans [of column_fills column_fills column_fills] column_fills_trans by blast

lemma fills_fillna_series: "list_all2 column_fills (fillna_series med df) df"
  unfolding fillna_series_def
proof (induction med arbitrary: df)
  case Nil
  then show ?case by (simp add: list_all2_refl column_fills_refl)
next
  case (Cons kv med)
  obtain k v where kv: "kv = (k, v)" by (cases kv)
  have "list_all2 column_fills (fold (\<lambda>(k, v). fillna_label k v) med (fillna_label k v df))
          (fillna_label k v df)" by (rule Cons)
  then show ?case using fills_fillna_label [of k v df] by (auto simp: kv intro: frame_fills_trans)
qed

lemma fills_fillna_all: "list_all2 column_fills (fillna_all v df) df"
  by (induction df) (auto simp: fillna_all_def column_fills_def fills_fillna_str)

lemma fills_filled: "list_all2 column_fills (filled df) df"
  unfolding filled_def
  using fills_fillna_all fills_fillna_series by (rule frame_fills_trans)

lemma list_all2_map2_Cons:
  "list_all2 R xs xs' \<Longrightarrow> list_all2 (list_all2 R) ys ys' \<Longrightarrow>
   list_all2 (list_all2 R) (map2 (#) xs ys) (map2 (#) xs' ys')"
proof (induction xs xs' arbitrary: ys ys' rule: list_all2_induct)
  case Nil
  then show ?case by simp
next
  case (Cons x xs x' xs')
  from Cons.prems Cons.hyps show ?case
    by (cases ys; cases ys') (auto simp: Cons.IH)
qed

lemma rows_fills:
  "list_all2 column_fills df df' \<Longrightarrow> list_all2 (list_all2 fills) (rows df) (rows df')"
proof (induction df arbitrary: df' rule: rows.induct)
  case 1
  then show ?case by simp
next
  case (2 n s)
  then obtain n' s' where "df' = [(n', s')]" and "list_all2 fills (cells s) (cells s')"
    by (auto simp: list_all2_Cons1 column_fills_def)
  then show ?case by (simp add: list_all2_map1 list_all2_map2)
next
  case (3 n s c cs)
  from "3.prems" obtain p c' cs' where p: "df' = p # c' # cs'"
    and cf: "column_fills (n, s) p"
    and r: "list_all2 column_fills (c # cs) (c' # cs')"
    by (auto simp: list_all2_Cons1)
  obtain n' s' where "p = (n', s')" by (cases p)
  with p cf have df': "df' = (n', s') # c' # cs'"
    and s: "list_all2 fills (cells s) (cells s')"
    by (simp_all add: column_fills_def)
  have "list_all2 (list_all2 fills) (rows (c # cs)) (rows (c' # cs'))"
    using r by (rule "3.IH")
  with s show ?case unfolding df' by (simp add: list_all2_map2_Cons)
qed

lemma list_emb_all2:
  "list_emb (=) xs ys \<Longrightarrow> list_all2 P ys zs \<Longrightarrow> list_emb P xs zs"
proof (induction xs ys arbitrary: zs rule: list_emb.induct)
  case (list_emb_Nil ys)
  then show ?case by simp
next
  case (list_emb_Cons xs ys y)
  then show ?case by (auto simp: list_all2_Cons1)
next
  case (list_emb_Cons2 x y xs ys)
  then show ?case by (auto simp: list_all2_Cons1)
qed

text \<open>
  C10: \<open>cleanse_data\<close> keeps the column sequence, and the rows of its result are embedded
  in the rows of the input in the input's order: each surviving row comes from a row
  of the input, cell by cell the same but for the cells that were missing, and rows
  that come earlier in the result come from earlier rows of the input.
\<close>

theorem cleanse_data_preserves_order:
  assumes "cleanse_data w data = (Inr data', w')"
  shows "columns data' = columns data \<and>
         list_emb (list_all2 fills) (rows data') (rows data)"
proof -
  have d: "data' = cleanse data" using assms by (rule cleanse_data_returns)
  have "subseq (rows data') (rows (filled data))"
    by (simp add: d cleanse_filled rows_drop_duplicates subseq_select)
  moreover have "list_all2 (list_all2 fills) (rows (filled data)) (rows data)"
    using fills_filled by (rule rows_fills)
  ultimately have "list_emb (list_all2 fills) (rows data') (rows data)"
    by (rule list_emb_all2)
  then show ?thesis by (simp add: d columns_cleanse)
qed

theorem cleanse_data_preserves_order_witness:
  "cleanse_data quiet_world repeats_frame =
     (Inr [(ustr ''name'', ObjS [CStr ''a'', CStr []]), (ustr ''score'', FloatS [Fin 1, Fin 3])],
      logging_info ''Data cleansing completed.'' quiet_world) \<and>
   columns [(ustr ''name'', ObjS [CStr ''a'', CStr []]), (ustr ''score'', FloatS [Fin 1, Fin 3])] =
     columns repeats_frame \<and>
   list_emb (list_all2 fills)
     (rows [(ustr ''name'', ObjS [CStr ''a'', CStr []]), (ustr ''score'', FloatS [Fin 1, Fin 3])])
     (rows repeats_frame)"
proof -
  have h: "cleanse_data quiet_world repeats_frame =
     (Inr [(ustr ''name'', ObjS [CStr ''a'', CStr []]), (ustr ''score'', FloatS [Fin 1, Fin 3])],
      logging_info ''Data cleansing completed.'' quiet_world)"
    by (simp add: cleanse_data_def quiet_world_def cleanse_repeats)
  show ?thesis using h cleanse_data_preserves_order [OF h] by simp
qed

subsection \<open>The value a missing cell receives\<close>

lemma fillna_series_columns:
  "fillna_series med df = map (\<lambda>(col, s). (col, fill_column med col s)) df"
  unfolding fillna_series_def fill_column_def
proof (induction med arbitrary: df)
  case Nil
  then show ?case by simp
next
  case (Cons kv med)
  obtain k v where kv: "kv = (k, v)" by (cases kv)
  have "fold (\<lambda>(k, v). fillna_label k v) (kv # med) df =
        fold (\<lambda>(k, v). fillna_label k v) med (fillna_label k v df)"
    by (simp add: kv)
  also have "\<dots> = map (\<lambda>(col, s). (col, fold (\<lambda>(k, v) t. if col = k then fillna_float v t else t) med s))
                  (fillna_label k v df)"
    by (rule Cons)
  also have "\<dots> = map (\<lambda>(col, s). (col, fold (\<lambda>(k, v) t. if col = k then fillna_float v t else t)
                  (kv # med) s)) df"
    by (auto simp: kv fillna_label_def)
  finally show ?case .
qed

lemma fill_column_unique:
  "filter (\<lambda>(k', v'). k' = k) med = [(k, v)] \<Longrightarrow> fill_column med k s = fillna_float v s"
  unfolding fill_column_def
proof (induction med arbitrary: s)
  case Nil
  then show ?case by simp
next
  case (Cons kv med)
  obtain k' v' where kv: "kv = (k', v')" by (cases kv)
  show ?case
  proof (cases "k' = k")
    case True
    with Cons.prems kv have v: "v' = v" and e: "filter (\<lambda>(k', v'). k' = k) med = []" by auto
    from e have "\<forall>x \<in> set med. fst x \<noteq> k" by (auto simp: filter_empty_conv)
    then have "fold (\<lambda>(k', v) t. if k = k' then fillna_float v t else t) med t = t" for t
      by (induction med arbitrary: t) (auto simp: case_prod_unfold)
    then show ?thesis by (simp add: kv True v)
  next
    case False
    with Cons.prems kv have "filter (\<lambda>(k', v'). k' = k) med = [(k, v)]" by auto
    then show ?thesis using False by (simp add: kv Cons.IH)
  qed
qed

lemma labelled_median:
  assumes "labelled k df = [(k, s)]" and "is_numeric s"
  shows "filter (\<lambda>(k', v'). k' = k) (median_numeric_only df) = [(k, median s)]"
proof -
  have "filter (\<lambda>(k', v'). k' = k) (median_numeric_only df) =
        map (\<lambda>(col, s). (col, median s)) (filter (\<lambda>(col, s). is_numeric s) (labelled k df))"
    unfolding median_numeric_only_def labelled_def
    by (induction df) auto
  then show ?thesis using assms by simp
qed

lemma labelled_map:
  "labelled k (map (\<lambda>(col, s). (col, f col s)) df) = map (\<lambda>(col, s). (col, f col s)) (labelled k df)"
  unfolding labelled_def by (induction df) auto

lemma filled_columns:
  "filled df =
     map (\<lambda>(col, s). (col, fillna_str [] (fill_column (median_numeric_only df) col s))) df"
  by (simp add: filled_def fillna_all_def fillna_series_columns case_prod_unfold comp_def)

lemma cleanse_columns:
  "cleanse df =
     map (\<lambda>(col, s). (col, select_series (kept df)
            (fillna_str [] (fill_column (median_numeric_only df) col s)))) df"
  unfolding cleanse_kept by (simp add: filled_columns case_prod_unfold comp_def)

lemma labelled_cleanse:
  assumes "labelled k df = [(k, s)]"
  shows "labelled k (cleanse df) =
     [(k, select_series (kept df) (fillna_str [] (fill_column (median_numeric_only df) k s)))]"
  unfolding cleanse_columns
  using labelled_map [of k "\<lambda>col s. select_series (kept df)
            (fillna_str [] (fill_column (median_numeric_only df) col s))" df]
  by (simp add: assms)

lemma set_insert_sorted: "set (insert_sorted x ys) = insert x (set ys)"
  by (induction ys) auto

lemma length_insert_sorted: "length (insert_sorted x ys) = Suc (length ys)"
  by (induction ys) auto

lemma set_sort_floats: "set (sort_floats xs) = set xs"
  unfolding sort_floats_def by (induction xs) (auto simp: set_insert_sorted)

lemma length_sort_floats: "length (sort_floats xs) = length xs"
  unfolding sort_floats_def by (induction xs) (auto simp: length_insert_sorted)

text \<open>
  Rounding at work: the double nearest to 0.1, the mean of the doubles nearest to 0.1
  and 0.2 (printed as 0.15000000000000002), and an integer above \<open>2 ^ 53\<close>.
\<close>

lemma round_float64_tenth: "round_float64 (1 / 10) = Fin (3602879701896397 / 2 ^ 55)"
  by code_simp

lemma mean2_tenth_fifth:
  "mean2 (Fin (3602879701896397 / 2 ^ 55)) (Fin (3602879701896397 / 2 ^ 54)) =
     Fin (5404319552844596 / 2 ^ 55)"
  by code_simp

lemma round_float64_int: "round_float64 (of_int (2 ^ 53 + 1)) = Fin (2 ^ 53)"
  by code_simp

lemma round_float64_not_nan: "round_float64 x \<noteq> NaN"
  by (simp add: round_float64_def Let_def)

lemma halve_not_nan: "x \<noteq> NaN \<Longrightarrow> halve x \<noteq> NaN"
  by (cases x) (simp_all add: round_float64_not_nan)

lemma mean2_not_nan: "is_finite a \<Longrightarrow> is_finite b \<Longrightarrow> mean2 a b \<noteq> NaN"
  by (cases a; cases b) (simp_all add: halve_not_nan round_float64_not_nan)

lemma is_finite_not_nan: "is_finite a \<Longrightarrow> a \<noteq> NaN"
  by (cases a) simp_all

text \<open>
  A column with a non-missing value and without infinities has a median, a number: the
  middle value, or the mean of two finite values, which is finite or an infinity.
\<close>

lemma nanmedian_not_nan:
  assumes fin: "\<forall>x \<in> set xs. x = NaN \<or> is_finite x" and some: "\<exists>x \<in> set xs. x \<noteq> NaN"
  shows "nanmedian xs \<noteq> NaN"
proof -
  let ?ys = "sort_floats (filter (\<lambda>x. x \<noteq> NaN) xs)"
  let ?n = "length ?ys"
  have all: "\<forall>y \<in> set ?ys. is_finite y" using fin by (auto simp: set_sort_floats)
  have pos: "0 < ?n" using some by (auto simp: length_sort_floats filter_empty_conv)
  have nth: "is_finite (?ys ! i)" if "i < ?n" for i using all that by (meson nth_mem)
  have 1: "?n div 2 < ?n" using pos by arith
  have 2: "?n div 2 - 1 < ?n" using pos by arith
  have "?ys ! (?n div 2) \<noteq> NaN" using nth [OF 1] by (rule is_finite_not_nan)
  moreover have "mean2 (?ys ! (?n div 2 - 1)) (?ys ! (?n div 2)) \<noteq> NaN"
    using nth [OF 2] nth [OF 1] by (rule mean2_not_nan)
  moreover have "nanmedian xs =
      (if odd ?n then ?ys ! (?n div 2) else mean2 (?ys ! (?n div 2 - 1)) (?ys ! (?n div 2)))"
    using pos by (simp add: nanmedian_def Let_def)
  ultimately show ?thesis by simp
qed

lemma median_not_nan:
  assumes "\<forall>x \<in> set xs. x = NaN \<or> is_finite x" and "\<exists>x \<in> set xs. x \<noteq> NaN"
  shows "median (FloatS xs) \<noteq> NaN"
  using nanmedian_not_nan [OF assms] by (simp add: median_def)

text \<open>
  C4, as amended: for a float64 column whose label no other column carries and whose
  median over the non-missing values is not NaN, \<open>cleanse_data\<close> returns the column with
  every missing cell replaced by that median, computed before the fill, restricted to
  the rows that are kept. All the cells that were missing hold the same value.
  Integer and bool columns hold no missing cell. By \<open>median_not_nan\<close> the median is a
  number whenever the column has a non-missing value and no infinity.
\<close>

theorem cleanse_data_fills_median:
  assumes "cleanse_data w data = (Inr data', w')"
    and "labelled k data = [(k, FloatS xs)]"
    and "median (FloatS xs) \<noteq> NaN"
  shows "labelled k data' =
     [(k, FloatS (select (kept data) (map (\<lambda>x. if x = NaN then median (FloatS xs) else x) xs)))]"
proof -
  have d: "data' = cleanse data" using assms(1) by (rule cleanse_data_returns)
  have "filter (\<lambda>(k', v'). k' = k) (median_numeric_only data) = [(k, median (FloatS xs))]"
    using assms(2) by (rule labelled_median) simp
  then have "fill_column (median_numeric_only data) k (FloatS xs) =
      fillna_float (median (FloatS xs)) (FloatS xs)"
    by (rule fill_column_unique)
  moreover have "NaN \<notin> set (map (\<lambda>x. if x = NaN then median (FloatS xs) else x) xs)"
    using assms(3) by auto
  ultimately show ?thesis
    unfolding d labelled_cleanse [OF assms(2)] by simp
qed

lemma cleanse_scores: "cleanse scores_frame =
  [(ustr ''id'', IntS [1, 2, 3, 4]), (ustr ''score'', FloatS [Fin 1, Fin 2, Fin 3, Fin 2])]"
  by code_simp

lemma kept_scores: "kept scores_frame = [True, True, True, True]"
  by code_simp

lemma median_scores: "median (FloatS [Fin 1, NaN, Fin 3, NaN]) = Fin 2"
  by code_simp

lemma labelled_scores: "labelled (ustr ''score'') scores_frame = [(ustr ''score'', FloatS [Fin 1, NaN, Fin 3, NaN])]"
  by code_simp

theorem cleanse_data_fills_median_witness:
  "cleanse_data quiet_world scores_frame =
     (Inr [(ustr ''id'', IntS [1, 2, 3, 4]), (ustr ''score'', FloatS [Fin 1, Fin 2, Fin 3, Fin 2])],
      logging_info ''Data cleansing completed.'' quiet_world) \<and>
   labelled (ustr ''score'') scores_frame = [(ustr ''score'', FloatS [Fin 1, NaN, Fin 3, NaN])] \<and>
   median (FloatS [Fin 1, NaN, Fin 3, NaN]) = Fin 2 \<and>
   labelled (ustr ''score'') [(ustr ''id'', IntS [1, 2, 3, 4]), (ustr ''score'', FloatS [Fin 1, Fin 2, Fin 3, Fin 2])]
     = [(ustr ''score'', FloatS [Fin 1, Fin 2, Fin 3, Fin 2])]"
proof -
  have h: "cleanse_data quiet_world scores_frame =
     (Inr [(ustr ''id'', IntS [1, 2, 3, 4]), (ustr ''score'', FloatS [Fin 1, Fin 2, Fin 3, Fin 2])],
      logging_info ''Data cleansing completed.'' quiet_world)"
    by (simp add: cleanse_data_def quiet_world_def cleanse_scores)
  have m: "median (FloatS [Fin 1, NaN, Fin 3, NaN]) \<noteq> NaN" by (simp add: median_scores)
  show ?thesis
    using h labelled_scores median_scores
      cleanse_data_fills_median [OF h labelled_scores m]
    by (simp add: kept_scores)
qed

lemma cleanse_shared_label:
  "cleanse shared_label_frame =
     [(ustr ''a'', IntS [1, 3, 5]),
      (ustr ''a'', FloatS [Fin 10, Fin 3, Fin 20]),
      (ustr ''x'', ObjS [CFloat PInf, CFloat NInf, CStr []])]"
  by code_simp

lemma median_shared_label:
  "median (IntS [1, 3, 5]) = Fin 3"
  "median (FloatS [Fin 10, NaN, Fin 20]) = Fin 15"
  "median (FloatS [PInf, NInf, NaN]) = NaN"
  by code_simp+

text \<open>
  C4 as stated fails on both numeric columns of this table that have a missing cell.
  The second column labelled \<open>a\<close> has the median 15, but \<open>fillna\<close> takes the first entry
  of the medians under the label and fills the cells of every column labelled \<open>a\<close> with
  it: the missing cell receives 3, the median of the first column. The column \<open>x\<close> has
  the non-missing values \<open>inf\<close> and \<open>-inf\<close>, whose mean is NaN: the first \<open>fillna\<close>
  changes nothing, and the missing cell ends as the empty string.
\<close>

theorem cleanse_data_fills_median_counterexample:
  "is_numeric (FloatS [Fin 10, NaN, Fin 20]) \<and> is_numeric (FloatS [PInf, NInf, NaN]) \<and>
   median (FloatS [Fin 10, NaN, Fin 20]) = Fin 15 \<and>
   median (FloatS [PInf, NInf, NaN]) = NaN \<and>
   cleanse_data quiet_world shared_label_frame =
     (Inr [(ustr ''a'', IntS [1, 3, 5]),
           (ustr ''a'', FloatS [Fin 10, Fin 3, Fin 20]),
           (ustr ''x'', ObjS [CFloat PInf, CFloat NInf, CStr []])],
      logging_info ''Data cleansing completed.'' quiet_world) \<and>
   Fin 3 \<noteq> median (FloatS [Fin 10, NaN, Fin 20]) \<and>
   CStr [] \<noteq> CFloat (median (FloatS [PInf, NInf, NaN]))"
  by (simp add: cleanse_data_def quiet_world_def cleanse_shared_label median_shared_label)

subsection \<open>The rules on the age column\<close>

lemma age_rules_not_integer:
  assumes "labelled (ustr ''age'') data = [(ustr ''age'', s)]" and "\<not> is_integer_dtype s"
  shows "age_rules data = Inl (Exn ValueError ''Age column must be integer type'')"
  using assms by (cases s) (simp_all add: age_rules_def labelled_def)

lemma age_rules_integer:
  assumes "labelled (ustr ''age'') data = [(ustr ''age'', IntS xs)]"
  shows "age_rules data =
           (if \<exists>x \<in> set xs. x < 0 then Inl (Exn ValueError ''Age column contains negative values'')
            else Inr ())"
  using assms by (simp add: age_rules_def labelled_def)

lemma validate_data_type_error:
  assumes "labelled (ustr ''age'') data = [(ustr ''age'', s)]" and "\<not> is_integer_dtype s"
  shows "validate_data w data =
           (Inl (Exn ValueError ''Age column must be integer type''),
            logging_error ''Data validation error: Age column must be integer type'' w)"
  by (simp add: validate_data_def age_rules_not_integer [OF assms])

lemma non_int_cell_dtype: "\<exists>c \<in> set (cells s). \<not> is_int_cell c \<Longrightarrow> \<not> is_integer_dtype s"
  by (cases s) auto

lemma missing_cell_dtype: "\<exists>c \<in> set (cells s). isna c \<Longrightarrow> \<not> is_integer_dtype s"
  by (cases s) (auto simp: isna_def)

lemma dtype_fillna_float: "is_integer_dtype (fillna_float v s) = is_integer_dtype s"
  by (cases s) simp_all

lemma dtype_fill_column: "is_integer_dtype (fill_column med col s) = is_integer_dtype s"
  unfolding fill_column_def
proof (induction med arbitrary: s)
  case Nil
  then show ?case by simp
next
  case (Cons kv med)
  obtain k v where kv: "kv = (k, v)" by (cases kv)
  show ?case
    using Cons [of "if col = k then fillna_float v s else s"]
    by (simp add: kv dtype_fillna_float)
qed

lemma dtype_fillna_str: "is_integer_dtype (fillna_str v s) = is_integer_dtype s"
  by (cases s) simp_all

lemma dtype_select_series: "is_integer_dtype (select_series m s) = is_integer_dtype s"
  by (cases s) simp_all

text \<open>
  C5, as amended: for every table with exactly one column labelled \<open>age\<close>, holding at
  least one value that is not an integer, \<open>validate_data\<close> logs and raises the
  ValueError "Age column must be integer type". The result does not depend on the
  signs of the values: the type check comes first, and the range error is not reported.
\<close>

theorem validate_data_type_check_first:
  assumes "labelled (ustr ''age'') data = [(ustr ''age'', s)]"
    and "\<exists>c \<in> set (cells s). \<not> is_int_cell c"
  shows "validate_data w data =
           (Inl (Exn ValueError ''Age column must be integer type''),
            logging_error ''Data validation error: Age column must be integer type'' w)"
  using assms(1) non_int_cell_dtype [OF assms(2)] by (rule validate_data_type_error)

theorem validate_data_type_check_first_witness:
  "labelled (ustr ''age'') fractional_age_frame = [(ustr ''age'', FloatS [Fin (7 / 2), Fin (- 1)])] \<and>
   \<not> is_int_cell (CFloat (Fin (7 / 2))) \<and>
   validate_data quiet_world fractional_age_frame =
     (Inl (Exn ValueError ''Age column must be integer type''),
      logging_error ''Data validation error: Age column must be integer type'' quiet_world)"
proof -
  have l: "labelled (ustr ''age'') fractional_age_frame = [(ustr ''age'', FloatS [Fin (7 / 2), Fin (- 1)])]"
    by (simp add: labelled_def fractional_age_frame_def)
  have c: "\<exists>c \<in> set (cells (FloatS [Fin (7 / 2), Fin (- 1)])). \<not> is_int_cell c" by simp
  show ?thesis using l validate_data_type_check_first [OF l c] by simp
qed

text \<open>
  C5 as stated fails on a table in which two columns are labelled \<open>age\<close>, one of them
  with a non-integer value: \<open>data['age']\<close> is then a DataFrame, the access to \<open>dtype\<close>
  raises AttributeError, and \<open>validate_data\<close> re-raises it from its last handler.
\<close>

theorem validate_data_type_check_first_counterexample:
  "(ustr ''age'', FloatS [Fin (7 / 2)]) \<in> set two_ages_frame \<and>
   \<not> is_int_cell (CFloat (Fin (7 / 2))) \<and>
   validate_data quiet_world two_ages_frame =
     (Inl (Exn AttributeError (quoted ''DataFrame'' @ '' object has no attribute '' @ quoted ''dtype'')),
      logging_error (''An unknown error occurred during data validation: '' @
        quoted ''DataFrame'' @ '' object has no attribute '' @ quoted ''dtype'') quiet_world) \<and>
   Exn AttributeError (quoted ''DataFrame'' @ '' object has no attribute '' @ quoted ''dtype'') \<noteq>
     Exn ValueError ''Age column must be integer type''"
  by (simp add: two_ages_frame_def validate_data_def age_rules_def)

text \<open>
  C9, as amended: for every table with exactly one column labelled \<open>age\<close>, holding at
  least one missing value, \<open>validate_data\<close> on the table \<open>cleanse_data\<close> returns raises the
  ValueError "Age column must be integer type": the filled column is still float64 or
  object, and the check reads the dtype.
\<close>

theorem missing_age_fails_type_check:
  assumes "cleanse_data w data = (Inr data', w')"
    and "labelled (ustr ''age'') data = [(ustr ''age'', s)]"
    and "\<exists>c \<in> set (cells s). isna c"
  shows "validate_data w' data' =
           (Inl (Exn ValueError ''Age column must be integer type''),
            logging_error ''Data validation error: Age column must be integer type'' w')"
proof -
  have d: "data' = cleanse data" using assms(1) by (rule cleanse_data_returns)
  let ?s = "select_series (kept data)
              (fillna_str [] (fill_column (median_numeric_only data) (ustr ''age'') s))"
  have l: "labelled (ustr ''age'') data' = [(ustr ''age'', ?s)]"
    unfolding d using assms(2) by (rule labelled_cleanse)
  have "\<not> is_integer_dtype s" using assms(3) by (rule missing_cell_dtype)
  then have "\<not> is_integer_dtype ?s"
    by (simp add: dtype_select_series dtype_fillna_str dtype_fill_column)
  with l show ?thesis by (rule validate_data_type_error)
qed

theorem missing_age_fails_type_check_witness:
  "cleanse_data quiet_world alice_std =
     (Inr alice_clean, logging_info ''Data cleansing completed.'' quiet_world) \<and>
   labelled (ustr ''age'') alice_std = [(ustr ''age'', FloatS [Fin 30, NaN])] \<and>
   isna (CFloat NaN) \<and>
   validate_data (logging_info ''Data cleansing completed.'' quiet_world) alice_clean =
     (Inl (Exn ValueError ''Age column must be integer type''),
      logging_error ''Data validation error: Age column must be integer type''
        (logging_info ''Data cleansing completed.'' quiet_world))"
proof -
  have h: "cleanse_data quiet_world alice_std =
     (Inr alice_clean, logging_info ''Data cleansing completed.'' quiet_world)"
    by (rule cleanse_data_alice) (simp add: quiet_world_def)
  have l: "labelled (ustr ''age'') alice_std = [(ustr ''age'', FloatS [Fin 30, NaN])]"
    by (simp add: labelled_def alice_std_def)
  have c: "\<exists>c \<in> set (cells (FloatS [Fin 30, NaN])). isna c" by (simp add: isna_def)
  show ?thesis using h l missing_age_fails_type_check [OF h l c] by (simp add: isna_def)
qed

text \<open>
  C9 as stated fails on a table in which two columns are labelled \<open>age\<close>, one of them
  with a missing value: after cleansing, \<open>data['age']\<close> is a DataFrame and \<open>validate_data\<close>
  raises AttributeError, not the integer-type error.
\<close>

theorem missing_age_fails_type_check_counterexample:
  "(ustr ''age'', FloatS [NaN, Fin 1]) \<in> set two_ages_missing_frame \<and>
   isna (CFloat NaN) \<and>
   cleanse_data quiet_world two_ages_missing_frame =
     (Inr [(ustr ''age'', FloatS [Fin 1, Fin 1]), (ustr ''age'', IntS [1, 2])],
      logging_info ''Data cleansing completed.'' quiet_world) \<and>
   fst (validate_data (logging_info ''Data cleansing completed.'' quiet_world)
          [(ustr ''age'', FloatS [Fin 1, Fin 1]), (ustr ''age'', IntS [1, 2])]) =
     Inl (Exn AttributeError (quoted ''DataFrame'' @ '' object has no attribute '' @ quoted ''dtype'')) \<and>
   Exn AttributeError (quoted ''DataFrame'' @ '' object has no attribute '' @ quoted ''dtype'') \<noteq>
     Exn ValueError ''Age column must be integer type''"
proof -
  have "cleanse two_ages_missing_frame = [(ustr ''age'', FloatS [Fin 1, Fin 1]), (ustr ''age'', IntS [1, 2])]"
    by code_simp
  then show ?thesis
    by (simp add: cleanse_data_def quiet_world_def two_ages_missing_frame_def isna_def
        validate_data_def age_rules_def)
qed

subsection \<open>Values that survive the removal of duplicates\<close>

lemma length_duplicated_from: "length (duplicated_from seen ks) = length ks"
  by (induction ks arbitrary: seen) auto

lemma first_kept:
  "p < length ks \<Longrightarrow> ks ! p \<notin> set seen \<Longrightarrow>
   \<exists>q \<le> p. \<not> duplicated_from seen ks ! q \<and> ks ! q = ks ! p"
proof (induction ks arbitrary: seen p)
  case Nil
  then show ?case by simp
next
  case (Cons k ks)
  show ?case
  proof (cases "k = (k # ks) ! p")
    case True
    with Cons.prems have "\<not> duplicated_from seen (k # ks) ! 0 \<and> (k # ks) ! 0 = (k # ks) ! p"
      by simp
    then show ?thesis by blast
  next
    case False
    then obtain p' where p: "p = Suc p'" by (cases p) auto
    with Cons.prems False have "p' < length ks" and "ks ! p' \<notin> set (k # seen)" by auto
    then obtain q where "q \<le> p'" and "\<not> duplicated_from (k # seen) ks ! q" and "ks ! q = ks ! p'"
      using Cons.IH by blast
    then have "Suc q \<le> p \<and> \<not> duplicated_from seen (k # ks) ! Suc q \<and>
               (k # ks) ! Suc q = (k # ks) ! p"
      by (simp add: p)
    then show ?thesis by blast
  qed
qed

lemma length_rows:
  "\<forall>c \<in> set df. length (cells (snd c)) = n \<Longrightarrow> df \<noteq> [] \<Longrightarrow> length (rows df) = n"
  by (induction df rule: rows.induct) auto

lemma length_row: "r \<in> set (rows df) \<Longrightarrow> length r = length df"
proof (induction df arbitrary: r rule: rows.induct)
  case (3 n s c cs)
  from "3.prems" obtain x ys where "r = x # ys" and "ys \<in> set (rows (c # cs))"
    by (auto dest: set_zip_rightD)
  then show ?case using "3.IH" by simp
qed auto

lemma nth_rows:
  "j < length df \<Longrightarrow> p < length (rows df) \<Longrightarrow> rows df ! p ! j = cells (snd (df ! j)) ! p"
proof (induction df arbitrary: j rule: rows.induct)
  case 1
  then show ?case by simp
next
  case (2 n s)
  then show ?case by simp
next
  case (3 n s c cs)
  then show ?case by (cases j) auto
qed

lemma int_value_kept:
  assumes len: "\<forall>c \<in> set df. length (cells (snd c)) = n"
    and j: "j < length df" and col: "df ! j = (k, IntS xs)" and x: "x \<in> set xs"
  shows "x \<in> set (select (map Not (duplicated df)) xs)"
proof -
  let ?ks = "map row_key (rows df)"
  have ne: "df \<noteq> []" using j by auto
  have "(k, IntS xs) \<in> set df" using j col by (metis nth_mem)
  then have n: "length xs = n" using len by fastforce
  have lr: "length (rows df) = n" using len ne by (rule length_rows)
  from x obtain p where p: "p < length xs" and xp: "xs ! p = x" by (auto simp: in_set_conv_nth)
  have "p < length ?ks" using p n lr by simp
  then obtain q where q: "q \<le> p" and keep: "\<not> duplicated_from [] ?ks ! q" and same: "?ks ! q = ?ks ! p"
    using first_kept [of p ?ks "[]"] by auto
  have ql: "q < length (rows df)" and pl: "p < length (rows df)" using q p n lr by auto
  have rk: "row_key (rows df ! q) = row_key (rows df ! p)" using same ql pl by simp
  have "length (rows df ! q) = length df" "length (rows df ! p) = length df"
    using ql pl by (simp_all add: length_row)
  then have "cell_key (rows df ! q ! j) = cell_key (rows df ! p ! j)"
    using rk j unfolding row_key_def by (metis nth_map)
  then have "cell_key (CInt (xs ! q)) = cell_key (CInt (xs ! p))"
    using j ql pl p q n lr by (simp add: nth_rows col)
  then have "xs ! q = x" by (simp add: xp)
  moreover have "xs ! q \<in> set (select (map Not (duplicated df)) xs)"
  proof (rule nth_select)
    show "q < length (map Not (duplicated df))"
      using ql by (simp add: duplicated_def length_duplicated_from)
    show "q < length xs" using q p by simp
    show "map Not (duplicated df) ! q"
      using keep ql by (simp add: duplicated_def length_duplicated_from)
  qed
  ultimately show ?thesis by simp
qed

lemma length_cells_fillna_float: "length (cells (fillna_float v s)) = length (cells s)"
  using fills_fillna_float [of v s] by (rule list_all2_lengthD)

lemma length_cells_fillna_str: "length (cells (fillna_str v s)) = length (cells s)"
  using fills_fillna_str [of v s] by (rule list_all2_lengthD)

lemma length_cells_fill_column: "length (cells (fill_column med col s)) = length (cells s)"
  unfolding fill_column_def
proof (induction med arbitrary: s)
  case Nil
  then show ?case by simp
next
  case (Cons kv med)
  obtain k v where kv: "kv = (k, v)" by (cases kv)
  show ?case
    using Cons [of "if col = k then fillna_float v s else s"]
    by (simp add: kv length_cells_fillna_float)
qed

lemma lengths_filled:
  assumes "\<forall>c \<in> set df. length (cells (snd c)) = n"
  shows "\<forall>c \<in> set (filled df). length (cells (snd c)) = n"
  using assms unfolding filled_columns
  by (auto simp: length_cells_fillna_str length_cells_fill_column)

lemma fill_column_int: "fill_column med col (IntS xs) = IntS xs"
  unfolding fill_column_def
proof (induction med)
  case Nil
  then show ?case by simp
next
  case (Cons kv med)
  obtain k v where kv: "kv = (k, v)" by (cases kv)
  have "fold (\<lambda>(k, v) t. if col = k then fillna_float v t else t) (kv # med) (IntS xs) =
        fold (\<lambda>(k, v) t. if col = k then fillna_float v t else t) med (IntS xs)"
    by (simp add: kv)
  with Cons show ?case by simp
qed

lemma labelled_mem:
  assumes "labelled k df = [(k, s)]"
  shows "(k, s) \<in> set df"
proof -
  have "(k, s) \<in> set (labelled k df)" by (simp add: assms)
  then show ?thesis by (simp add: labelled_def)
qed

lemma age_rules_cleanse_int:
  assumes len: "\<forall>c \<in> set df. length (cells (snd c)) = n"
    and age: "labelled (ustr ''age'') df = [(ustr ''age'', IntS xs)]"
    and neg: "x \<in> set xs" "x < 0"
  shows "age_rules (cleanse df) = Inl (Exn ValueError ''Age column contains negative values'')"
proof -
  have l: "labelled (ustr ''age'') (cleanse df) = [(ustr ''age'', IntS (select (kept df) xs))]"
    using labelled_cleanse [OF age] by (simp add: fill_column_int)
  from labelled_mem [OF age] obtain j where j: "j < length df" and dj: "df ! j = (ustr ''age'', IntS xs)"
    by (auto simp: in_set_conv_nth)
  have "filled df ! j = (ustr ''age'', IntS xs)"
    using j dj by (simp add: filled_columns fill_column_int)
  moreover have "j < length (filled df)" using j by (simp add: filled_columns)
  ultimately have "x \<in> set (select (map Not (duplicated (filled df))) xs)"
    using lengths_filled [OF len] neg(1) int_value_kept by blast
  then have "\<exists>y \<in> set (select (kept df) xs). y < 0" using neg(2) by (auto simp: kept_def)
  then show ?thesis using age_rules_integer [OF l] by simp
qed

subsection \<open>Runs that stop at validation\<close>

lemma standardize_column_names_returns:
  "fails w Standardize = None \<Longrightarrow>
   standardize_column_names w data =
     (Inr (standardized (unicode w) data), logging_info ''Column names standardized.'' w)"
  by (simp add: standardize_column_names_def standardized_def)

lemma load_data_csv:
  "source w input_file = Csv data \<Longrightarrow>
   load_data w input_file =
     (Inr data, logging_info (''Data loaded successfully from '' @ input_file) w)"
  by (simp add: load_data_def read_csv_def)

lemma written_logging: "written (logging_info m w) = written w" "written (logging_error m w) = written w"
  by (simp_all add: logging_info_def logging_error_def)

text \<open>A run whose input loads and whose age rules fail with a ValueError.\<close>

lemma pipeline_stops_at_validation:
  assumes src: "source w input_file = Csv data"
    and f1: "fails w Standardize = None" and f2: "fails w Cleanse = None"
    and rule: "age_rules (cleanse (standardized (unicode w) data)) = Inl (Exn ValueError m)"
  shows "process_pipeline w input_file output_file =
           (Inr (), logging_error (''Pipeline failed: '' @ m)
              (logging_error (''Data validation error: '' @ m)
                (logging_info ''Data cleansing completed.''
                  (logging_info ''Column names standardized.''
                    (logging_info (''Data loaded successfully from '' @ input_file) w)))))"
proof -
  let ?w1 = "logging_info (''Data loaded successfully from '' @ input_file) w"
  let ?w2 = "logging_info ''Column names standardized.'' ?w1"
  let ?w3 = "logging_info ''Data cleansing completed.'' ?w2"
  have 1: "load_data w input_file = (Inr data, ?w1)" using src by (rule load_data_csv)
  have 2: "standardize_column_names ?w1 data = (Inr (standardized (unicode w) data), ?w2)"
    using standardize_column_names_returns [of ?w1 data]
    by (simp add: fails_logging_info unicode_logging_info f1)
  have 3: "cleanse_data ?w2 (standardized (unicode w) data) =
             (Inr (cleanse (standardized (unicode w) data)), ?w3)"
    by (simp add: cleanse_data_def fails_logging_info f2)
  have 4: "validate_data ?w3 (cleanse (standardized (unicode w) data)) =
             (Inl (Exn ValueError m), logging_error (''Data validation error: '' @ m) ?w3)"
    by (simp add: validate_data_def rule)
  show ?thesis
    by (simp only: process_pipeline_def 1 2 3 4 pipeline_failed_def prod.case sum.case exn.sel)
qed

lemma rectangular_standardized:
  "rectangular data \<Longrightarrow>
   \<forall>c \<in> set (standardized db data). length (cells (snd c)) = length (cells (snd (hd data)))"
  by (auto simp: rectangular_def standardized_def)

text \<open>
  C6, as amended: for every input that loads as a table in which exactly one column is
  named \<open>age\<close> after standardization, and this column contains the value -1, validation
  fails: with the negative-value error when the column is integer-typed, with the
  integer-type error otherwise (the type check comes first). In both cases
  \<open>process_pipeline\<close> logs the failure after the validation record and returns without
  a save: the files written are those written before.
\<close>

theorem minus_one_age_halts_pipeline:
  assumes src: "source w input_file = Csv data"
    and f1: "fails w Standardize = None" and f2: "fails w Cleanse = None"
    and rect: "rectangular data"
    and age: "labelled (ustr ''age'') (standardized (unicode w) data) = [(ustr ''age'', s)]"
    and m1: "CInt (- 1) \<in> set (cells s) \<or> CFloat (Fin (- 1)) \<in> set (cells s)"
  shows "process_pipeline w input_file output_file =
           (Inr (), logging_error (''Pipeline failed: '' @ age_message s)
              (logging_error (''Data validation error: '' @ age_message s)
                (logging_info ''Data cleansing completed.''
                  (logging_info ''Column names standardized.''
                    (logging_info (''Data loaded successfully from '' @ input_file) w))))) \<and>
         written (snd (process_pipeline w input_file output_file)) = written w"
proof -
  have "age_rules (cleanse (standardized (unicode w) data)) = Inl (Exn ValueError (age_message s))"
  proof (cases "is_integer_dtype s")
    case True
    then obtain xs where s: "s = IntS xs" by (cases s) auto
    with m1 have "- 1 \<in> set xs" by auto
    then show ?thesis
      using age_rules_cleanse_int [OF rectangular_standardized [OF rect],
          where xs = xs and x = "- 1" and db1 = "unicode w"] age
      by (simp add: s age_message_def)
  next
    case False
    let ?s = "select_series (kept (standardized (unicode w) data))
               (fillna_str [] (fill_column (median_numeric_only (standardized (unicode w) data)) (ustr ''age'') s))"
    have l: "labelled (ustr ''age'') (cleanse (standardized (unicode w) data)) = [(ustr ''age'', ?s)]"
      using age by (rule labelled_cleanse)
    have nd: "\<not> is_integer_dtype ?s"
      using False by (simp add: dtype_select_series dtype_fillna_str dtype_fill_column)
    show ?thesis
      using age_rules_not_integer [OF l nd] False by (simp add: age_message_def)
  qed
  then have "process_pipeline w input_file output_file =
           (Inr (), logging_error (''Pipeline failed: '' @ age_message s)
              (logging_error (''Data validation error: '' @ age_message s)
                (logging_info ''Data cleansing completed.''
                  (logging_info ''Column names standardized.''
                    (logging_info (''Data loaded successfully from '' @ input_file) w)))))"
    using src f1 f2 by (intro pipeline_stops_at_validation)
  then show ?thesis by (simp add: written_logging)
qed

lemma standardize_Age_Name:
  "standardize_name db (ustr ''Age'') = ustr ''age''"
  "standardize_name db (ustr ''Name'') = ustr ''name''"
  "standardize_name db (ustr ''age'') = ustr ''age''"
  by (simp_all add: standardize_name_def strip_def isspace_def lower_def lower_full_def
      ascii_lower_def replace_space_def ustr_simps)

lemma labelled_negative_age:
  "labelled (ustr ''age'') (standardized db negative_age_frame) = [(ustr ''age'', IntS [30, - 1])]"
  by (simp add: labelled_def standardized_def negative_age_frame_def standardize_Age_Name
      ustr_eq_iff)

theorem minus_one_age_halts_pipeline_witness:
  "source negative_age_world ''input_data.csv'' = Csv negative_age_frame \<and>
   rectangular negative_age_frame \<and>
   labelled (ustr ''age'') (standardized (unicode negative_age_world) negative_age_frame) = [(ustr ''age'', IntS [30, - 1])] \<and>
   CInt (- 1) \<in> set (cells (IntS [30, - 1])) \<and>
   log (snd (process_pipeline negative_age_world ''input_data.csv'' ''output_data.csv'')) =
     [(INFO, ''Data loaded successfully from input_data.csv''),
      (INFO, ''Column names standardized.''),
      (INFO, ''Data cleansing completed.''),
      (ERROR, ''Data validation error: Age column contains negative values''),
      (ERROR, ''Pipeline failed: Age column contains negative values'')] \<and>
   written (snd (process_pipeline negative_age_world ''input_data.csv'' ''output_data.csv'')) =
     Map.empty"
proof -
  have src: "source negative_age_world ''input_data.csv'' = Csv negative_age_frame"
    by (simp add: negative_age_world_def)
  have f: "fails negative_age_world Standardize = None" "fails negative_age_world Cleanse = None"
    by (simp_all add: negative_age_world_def quiet_world_def)
  have rect: "rectangular negative_age_frame"
    by (simp add: rectangular_def negative_age_frame_def)
  have m1: "CInt (- 1) \<in> set (cells (IntS [30, - 1])) \<or>
            CFloat (Fin (- 1)) \<in> set (cells (IntS [30, - 1]))" by simp
  have w: "written negative_age_world = Map.empty" "log negative_age_world = []"
    by (simp_all add: negative_age_world_def quiet_world_def)
  show ?thesis
    using src rect labelled_negative_age w
      minus_one_age_halts_pipeline [OF src f rect labelled_negative_age m1, of "''output_data.csv''"]
    by (simp add: logging_error_def logging_info_def age_message_def)
qed

lemma age_rules_fractional:
  "age_rules (cleanse (standardized db fractional_age_frame)) =
     Inl (Exn ValueError ''Age column must be integer type'')"
proof -
  have "standardized db fractional_age_frame = fractional_age_frame"
    by (simp add: standardized_def fractional_age_frame_def standardize_Age_Name)
  moreover have "age_rules (cleanse fractional_age_frame) =
     Inl (Exn ValueError ''Age column must be integer type'')"
    by code_simp
  ultimately show ?thesis by simp
qed

text \<open>
  C6 as stated fails on an input whose age column holds -1 beside a non-integer value:
  the column is read as float64, and validation fails with the integer-type error, not
  with the negative-value error.
\<close>

theorem minus_one_age_halts_pipeline_counterexample:
  "source fractional_age_world ''input_data.csv'' = Csv fractional_age_frame \<and>
   fractional_age_frame = [(ustr ''age'', FloatS [Fin (7 / 2), Fin (- 1)])] \<and>
   log (snd (process_pipeline fractional_age_world ''input_data.csv'' ''output_data.csv'')) =
     [(INFO, ''Data loaded successfully from input_data.csv''),
      (INFO, ''Column names standardized.''),
      (INFO, ''Data cleansing completed.''),
      (ERROR, ''Data validation error: Age column must be integer type''),
      (ERROR, ''Pipeline failed: Age column must be integer type'')]"
proof -
  have src: "source fractional_age_world ''input_data.csv'' = Csv fractional_age_frame"
    by (simp add: fractional_age_world_def)
  have f: "fails fractional_age_world Standardize = None" "fails fractional_age_world Cleanse = None"
    by (simp_all add: fractional_age_world_def quiet_world_def)
  have w: "log fractional_age_world = []"
    by (simp add: fractional_age_world_def quiet_world_def)
  show ?thesis
    using src w pipeline_stops_at_validation [OF src f age_rules_fractional, of "''output_data.csv''"]
    by (simp add: logging_error_def logging_info_def fractional_age_frame_def)
qed

subsection \<open>The end-to-end example\<close>

lemma standardized_alice: "standardized db alice_frame = alice_std"
  by (simp add: standardized_def alice_frame_def alice_std_def standardize_Age standardize_Name)

lemma rows_alice_clean:
  "rows alice_clean = [[CStr ''Alice'', CFloat (Fin 30)], [CStr ''alice'', CFloat (Fin 30)]]"
  by (simp add: alice_clean_def)

text \<open>
  C2, as amended: for the input with header \<open>" Name , Age "\<close> and the records
  \<open>("Alice", 30)\<close> and \<open>("alice", "")\<close>, loading, standardizing and cleansing succeed; the
  cleansed table has the header \<open>name,age\<close>, its missing age is the median 30 of the age
  column, and its rows are distinct. The filled age column is float64, so
  \<open>validate_data\<close> raises "Age column must be integer type": \<open>process_pipeline\<close> logs the
  failure and writes no output.
\<close>

theorem alice_pipeline_stops_at_validation:
  assumes "source w input_file = Csv alice_frame"
    and "fails w Standardize = None" and "fails w Cleanse = None"
  shows "cleanse (standardized (unicode w) alice_frame) = alice_clean \<and>
         columns alice_clean = [ustr ''name'', ustr ''age''] \<and>
         median (FloatS [Fin 30, NaN]) = Fin 30 \<and>
         labelled (ustr ''age'') alice_clean = [(ustr ''age'', FloatS [Fin 30, Fin 30])] \<and>
         distinct (rows alice_clean) \<and>
         process_pipeline w input_file output_file =
           (Inr (), logging_error ''Pipeline failed: Age column must be integer type''
              (logging_error ''Data validation error: Age column must be integer type''
                (logging_info ''Data cleansing completed.''
                  (logging_info ''Column names standardized.''
                    (logging_info (''Data loaded successfully from '' @ input_file) w))))) \<and>
         written (snd (process_pipeline w input_file output_file)) = written w"
proof -
  have c: "cleanse (standardized (unicode w) alice_frame) = alice_clean"
    by (simp add: standardized_alice cleanse_alice)
  have m: "median (FloatS [Fin 30, NaN]) = Fin 30" by code_simp
  have r: "age_rules (cleanse (standardized (unicode w) alice_frame)) =
             Inl (Exn ValueError ''Age column must be integer type'')"
    by (simp add: c age_rules_alice)
  have p: "process_pipeline w input_file output_file =
           (Inr (), logging_error (''Pipeline failed: '' @ ''Age column must be integer type'')
              (logging_error (''Data validation error: '' @ ''Age column must be integer type'')
                (logging_info ''Data cleansing completed.''
                  (logging_info ''Column names standardized.''
                    (logging_info (''Data loaded successfully from '' @ input_file) w)))))"
    using assms r by (rule pipeline_stops_at_validation)
  have "columns alice_clean = [ustr ''name'', ustr ''age'']"
    and "labelled (ustr ''age'') alice_clean = [(ustr ''age'', FloatS [Fin 30, Fin 30])]"
    and "distinct (rows alice_clean)"
    by (simp_all add: columns_def labelled_def rows_alice_clean) (simp_all add: alice_clean_def)
  with c m p show ?thesis by (simp add: written_logging)
qed

theorem alice_pipeline_stops_at_validation_witness:
  "source alice_world ''input_data.csv'' = Csv alice_frame \<and>
   cleanse (standardized (unicode alice_world) alice_frame) = alice_clean \<and>
   log (snd (process_pipeline alice_world ''input_data.csv'' ''output_data.csv'')) =
     [(INFO, ''Data loaded successfully from input_data.csv''),
      (INFO, ''Column names standardized.''),
      (INFO, ''Data cleansing completed.''),
      (ERROR, ''Data validation error: Age column must be integer type''),
      (ERROR, ''Pipeline failed: Age column must be integer type'')] \<and>
   written (snd (process_pipeline alice_world ''input_data.csv'' ''output_data.csv'')) = Map.empty"
proof -
  have src: "source alice_world ''input_data.csv'' = Csv alice_frame"
    by (simp add: alice_world_def)
  have w: "written alice_world = Map.empty" "log alice_world = []"
    by (simp_all add: alice_world_def quiet_world_def)
  show ?thesis
    using src w
      alice_pipeline_stops_at_validation [OF src fails_alice_world fails_alice_world,
        of "''output_data.csv''"]
    by (simp add: logging_error_def logging_info_def)
qed

text \<open>
  C2 as stated fails: on this input the pipeline does not succeed. It stops at
  validation and nothing is written under the output path.
\<close>

theorem alice_pipeline_counterexample:
  "source alice_world ''input_data.csv'' = Csv alice_frame \<and>
   written (snd (process_pipeline alice_world ''input_data.csv'' ''output_data.csv''))
     ''output_data.csv'' = None \<and>
   last (log (snd (process_pipeline alice_world ''input_data.csv'' ''output_data.csv''))) =
     (ERROR, ''Pipeline failed: Age column must be integer type'')"
proof -
  have src: "source alice_world ''input_data.csv'' = Csv alice_frame"
    by (simp add: alice_world_def)
  have r: "age_rules (cleanse (standardized (unicode alice_world) alice_frame)) =
             Inl (Exn ValueError ''Age column must be integer type'')"
    by (simp add: standardized_alice cleanse_alice age_rules_alice)
  have w: "written alice_world = Map.empty"
    by (simp add: alice_world_def quiet_world_def)
  show ?thesis
    using src w
      pipeline_stops_at_validation [OF src fails_alice_world fails_alice_world r,
        of "''output_data.csv''"]
    by (simp add: logging_error_def logging_info_def)
qed

end
